theory Spec2Isabelle
  imports Complex_Main
begin

section \<open>Text\<close>

text \<open>
  A Python \<open>str\<close> is a sequence of code points. It is modelled as a \<open>string\<close> whose
  characters are the code points 0 to 255, so \<open>strip\<close>, \<open>lower\<close> and the JSON encoder below
  are those of Python on every text of that range. The pictographs of the program's own
  messages lie beyond it: each is a named constant holding its UTF-8 bytes.
\<close>

definition glyph_magnifier :: string where
  "glyph_magnifier = [CHR 0xF0, CHR 0x9F, CHR 0x94, CHR 0x8D]"

definition glyph_gear :: string where
  "glyph_gear = [CHR 0xE2, CHR 0x9A, CHR 0x99, CHR 0xEF, CHR 0xB8, CHR 0x8F]"

definition glyph_check :: string where
  "glyph_check = [CHR 0xE2, CHR 0x9C, CHR 0x93]"

definition glyph_speech :: string where
  "glyph_speech = [CHR 0xF0, CHR 0x9F, CHR 0x92, CHR 0xAC]"

definition glyph_wave :: string where
  "glyph_wave = [CHR 0xF0, CHR 0x9F, CHR 0x91, CHR 0x8B]"

definition glyph_stopwatch :: string where
  "glyph_stopwatch = [CHR 0xE2, CHR 0x8F, CHR 0xB1, CHR 0xEF, CHR 0xB8, CHR 0x8F]"

definition glyph_cross :: string where
  "glyph_cross = [CHR 0xE2, CHR 0x9D, CHR 0x8C]"

definition glyph_chart :: string where
  "glyph_chart = [CHR 0xF0, CHR 0x9F, CHR 0x93, CHR 0x8A]"

definition newline :: string where
  "newline = [CHR 0x0A]"

text \<open>\<open>str.isspace\<close> on one code point below 256: tab to carriage return, the four
  separators 0x1C to 0x1F, the space, NEL and the no-break space.\<close>

definition isspace :: "char \<Rightarrow> bool" where
  "isspace c = (let n = (of_char c :: nat) in
     (9 \<le> n \<and> n \<le> 13) \<or> (28 \<le> n \<and> n \<le> 32) \<or> n = 133 \<or> n = 160)"

text \<open>\<open>str.strip()\<close>: whitespace is removed at both ends.\<close>

definition strip :: "string \<Rightarrow> string" where
  "strip s = rev (dropWhile isspace (rev (dropWhile isspace s)))"

text \<open>\<open>str.lower()\<close>: below 256 the cased capitals are A to Z and 0xC0 to 0xDE without
  the multiplication sign 0xD7; each has its small letter 32 places further.\<close>

definition isupper :: "char \<Rightarrow> bool" where
  "isupper c = (let n = (of_char c :: nat) in
     (65 \<le> n \<and> n \<le> 90) \<or> (192 \<le> n \<and> n \<le> 222 \<and> n \<noteq> 215))"

definition lower_char :: "char \<Rightarrow> char" where
  "lower_char c = (if isupper c then char_of ((of_char c :: nat) + 32) else c)"

definition lower :: "string \<Rightarrow> string" where
  "lower s = map lower_char s"

text \<open>\<open>sep.join(xs)\<close>.\<close>

fun join :: "string \<Rightarrow> string list \<Rightarrow> string" where
  "join sep [] = []"
| "join sep [x] = x"
| "join sep (x # y # ys) = x @ sep @ join sep (y # ys)"

text \<open>Decimal digits of a natural number and \<open>str\<close> of an integer.\<close>

definition digit_char :: "nat \<Rightarrow> char" where
  "digit_char d = char_of (48 + d)"

fun show_nat :: "nat \<Rightarrow> string" where
  "show_nat n = (if n < 10 then [digit_char n] else show_nat (n div 10) @ [digit_char (n mod 10)])"

declare show_nat.simps [simp del]

definition show_int :: "int \<Rightarrow> string" where
  "show_int i = (if i < 0 then CHR ''-'' # show_nat (nat (- i)) else show_nat (nat i))"

text \<open>
  A float is a rational number here. \<open>format(x, '.2f')\<close> prints the sign, the integer part
  and two decimals of \<open>x\<close> rounded to the nearest hundredth, a tie going to the even one.
\<close>

definition round_half_even :: "rat \<Rightarrow> nat" where
  "round_half_even y = (let f = nat \<lfloor>y\<rfloor>; r = y - of_nat f in
     if r < 1 / 2 then f else if 1 / 2 < r then Suc f else if even f then f else Suc f)"

definition format_2f :: "rat \<Rightarrow> string" where
  "format_2f x = (let n = round_half_even (\<bar>x\<bar> * 100) in
     (if x < 0 then ''-'' else '''') @ show_nat (n div 100) @ ''.''
       @ [digit_char (n mod 100 div 10), digit_char (n mod 10)])"

section \<open>Exceptions and the outside world\<close>

text \<open>
  The exceptions the program can meet. \<open>KeyboardInterrupt\<close> and \<open>SystemExit\<close> derive from
  \<open>BaseException\<close> only; \<open>EOFError\<close> and every other error derive from \<open>Exception\<close>.
  \<open>EOFError m\<close> carries its message \<open>m\<close>, which is empty when \<open>input\<close> raises it on a terminal;
  \<open>OtherError m\<close> is an exception of some other class whose \<open>str\<close> is \<open>m\<close>.
\<close>

datatype exn = KeyboardInterrupt | SystemExit nat | EOFError string | OtherError string

fun is_Exception :: "exn \<Rightarrow> bool" where
  "is_Exception KeyboardInterrupt = False"
| "is_Exception (SystemExit n) = False"
| "is_Exception (EOFError m) = True"
| "is_Exception (OtherError m) = True"

fun str_exn :: "exn \<Rightarrow> string" where
  "str_exn KeyboardInterrupt = []"
| "str_exn (SystemExit n) = show_nat n"
| "str_exn (EOFError m) = m"
| "str_exn (OtherError m) = m"

text \<open>
  The world outside the program: the lines still to be read from standard input, what has
  been written to standard output (one entry per write, oldest first), the number of calls
  made so far to the outside (\<open>print\<close>, \<open>input\<close>, \<open>time.time\<close>), for the call of each
  number the exception it raises, if any, what the clock reads after each number of
  calls, whether standard input and standard output are both a terminal, and what has
  been written to standard error. An interrupt signal is a \<open>KeyboardInterrupt\<close> raised by the
  call during which it arrives. An end of input typed on a terminal is an \<open>EOFError\<close>
  without message raised by the read during which it is typed; it takes no line, and the
  terminal delivers the lines typed after it.
\<close>

record world =
  stdin :: "string list"
  stdout :: "string list"
  calls :: nat
  faults :: "nat \<Rightarrow> exn option"
  clock :: "nat \<Rightarrow> rat"
  tty :: bool
  stderr :: "string list"

type_synonym 'a io = "world \<Rightarrow> (exn + 'a) \<times> world"

definition return :: "'a \<Rightarrow> 'a io" where
  "return x w = (Inr x, w)"

definition raise :: "exn \<Rightarrow> 'a io" where
  "raise e w = (Inl e, w)"

text \<open>Sequencing: an exception of the first part skips the second.\<close>

definition bind :: "'a io \<Rightarrow> ('a \<Rightarrow> 'b io) \<Rightarrow> 'b io" where
  "bind m f w = (case m w of (Inl e, w') \<Rightarrow> (Inl e, w') | (Inr x, w') \<Rightarrow> f x w')"

definition seq :: "unit io \<Rightarrow> 'b io \<Rightarrow> 'b io" where
  "seq m k = bind m (\<lambda>_. k)"

text \<open>A call to the outside: it is counted, and raises what the world has in store for it.\<close>

definition outside :: "'a io \<Rightarrow> 'a io" where
  "outside f w = (let w' = w\<lparr>calls := Suc (calls w)\<rparr> in
     case faults w (calls w) of Some e \<Rightarrow> (Inl e, w') | None \<Rightarrow> f w')"

definition stdout_write :: "string \<Rightarrow> unit io" where
  "stdout_write s = outside (\<lambda>w. (Inr (), w\<lparr>stdout := stdout w @ [s]\<rparr>))"

text \<open>\<open>print(s)\<close> writes \<open>s\<close> and a newline.\<close>

definition print :: "string \<Rightarrow> unit io" where
  "print s = stdout_write (s @ newline)"

text \<open>
  \<open>input(prompt)\<close>. When standard input and standard output are not both a terminal, it
  writes the prompt to standard output, then reads a line; at the end of the input it
  raises \<open>EOFError\<close> with the message \<open>EOF when reading a line\<close>. On a terminal the prompt
  goes to standard error and the line is read in the same call; when the terminal has
  no more lines the \<open>EOFError\<close> has no message.
\<close>

definition read_line :: "string io" where
  "read_line = outside (\<lambda>w. case stdin w of
       [] \<Rightarrow> (Inl (EOFError ''EOF when reading a line''), w)
     | l # ls \<Rightarrow> (Inr l, w\<lparr>stdin := ls\<rparr>))"

definition terminal_readline :: "string \<Rightarrow> string io" where
  "terminal_readline prompt w =
     outside (\<lambda>w. case stdin w of
         [] \<Rightarrow> (Inl (EOFError []), w)
       | l # ls \<Rightarrow> (Inr l, w\<lparr>stdin := ls\<rparr>))
       (w\<lparr>stderr := stderr w @ [prompt]\<rparr>)"

definition py_input :: "string \<Rightarrow> string io" where
  "py_input prompt w =
     (if tty w then terminal_readline prompt w else seq (stdout_write prompt) read_line w)"

definition time_time :: "rat io" where
  "time_time = outside (\<lambda>w. (Inr (clock w (calls w)), w))"

text \<open>No call among the next \<open>k\<close> raises.\<close>

definition no_fault :: "nat \<Rightarrow> world \<Rightarrow> bool" where
  "no_fault k w = (\<forall>i<k. faults w (calls w + i) = None)"

text \<open>The input is exhausted and no call raises from now on.\<close>

definition drained :: "world \<Rightarrow> bool" where
  "drained w = (stdin w = [] \<and> (\<forall>n\<ge>calls w. faults w n = None))"

text \<open>A computation that leaves the exceptions in store as they are, never lowers the count
  of calls, and raises only \<open>EOFError\<close> or what one of its own calls had in store.\<close>

definition tracked :: "'a io \<Rightarrow> bool" where
  "tracked m = (\<forall>w r w'. m w = (r, w') \<longrightarrow>
     faults w' = faults w \<and> calls w \<le> calls w' \<and>
     (\<forall>e. r = Inl e \<longrightarrow>
        (\<exists>m. e = EOFError m) \<or> (\<exists>n. calls w \<le> n \<and> n < calls w' \<and> faults w n = Some e)))"

section \<open>The Query Runner\<close>

text \<open>The result is a dict with a fixed set of keys: a record, and \<open>{"query": query}\<close>
  inside it another.\<close>

record query_input =
  query :: string

record execution_result =
  workflow_id :: string
  input :: query_input
  status :: string
  nodes_executed :: int
  merkle_root :: string

definition execute_workflow :: "string \<Rightarrow> execution_result io" where
  "execute_workflow q =
     seq (print (newline @ glyph_magnifier @ '' Query: '' @ q))
    (seq (print (glyph_gear @ ''  Executing workflow...''))
    (let result = \<lparr> workflow_id = ''gemma-rag-cascade'',
                     input = \<lparr> query = q \<rparr>,
                     status = ''completed'',
                     nodes_executed = 13,
                     merkle_root = ''4fcd7d2a62aa31a3'' \<rparr> in
     seq (print (glyph_check @ '' Workflow completed''))
    (seq (print (glyph_check @ '' Nodes executed: '' @ show_int (nodes_executed result) @ ''/13''))
    (seq (print (glyph_check @ '' Merkle root: '' @ merkle_root result))
    (return result)))))"

section \<open>The JSON encoder\<close>

text \<open>The values \<open>json.dumps\<close> meets in this program: strings, integers and dicts with
  string keys, in insertion order.\<close>

datatype json = JString string | JInt int | JObject "(string \<times> json) list"

definition result_json :: "execution_result \<Rightarrow> json" where
  "result_json r = JObject
     [(''workflow_id'', JString (workflow_id r)),
      (''input'', JObject [(''query'', JString (query (input r)))]),
      (''status'', JString (status r)),
      (''nodes_executed'', JInt (nodes_executed r)),
      (''merkle_root'', JString (merkle_root r))]"

definition backslash :: char where
  "backslash = CHR 0x5C"

definition dquote :: char where
  "dquote = CHR 0x22"

definition hex_digit :: "nat \<Rightarrow> char" where
  "hex_digit d = ''0123456789abcdef'' ! d"

text \<open>
  \<open>json.dumps\<close> escapes to ASCII: the backslash, the double quote and every character
  outside the range from the space to the tilde are escaped, five control characters by
  their letter and the others as \<open>\u\<close> and four hexadecimal digits.
\<close>

definition escape_char :: "char \<Rightarrow> string" where
  "escape_char c = (let n = (of_char c :: nat) in
     if c = backslash then [backslash, backslash]
     else if c = dquote then [backslash, dquote]
     else if 32 \<le> n \<and> n \<le> 126 then [c]
     else if n = 8 then [backslash, CHR ''b'']
     else if n = 12 then [backslash, CHR ''f'']
     else if n = 10 then [backslash, CHR ''n'']
     else if n = 13 then [backslash, CHR ''r'']
     else if n = 9 then [backslash, CHR ''t'']
     else [backslash, CHR ''u'', CHR ''0'', CHR ''0'', hex_digit (n div 16), hex_digit (n mod 16)])"

definition encode_string :: "string \<Rightarrow> string" where
  "encode_string s = dquote # concat (map escape_char s) @ [dquote]"

definition newline_indent :: "nat \<Rightarrow> nat \<Rightarrow> string" where
  "newline_indent ind level = newline @ replicate (ind * level) CHR '' ''"

text \<open>\<open>json.dumps(v, indent=ind)\<close> at nesting depth \<open>level\<close>: every member of a dict on a
  line of its own, \<open>ind\<close> spaces deeper than the braces around it.\<close>

fun dumps :: "nat \<Rightarrow> nat \<Rightarrow> json \<Rightarrow> string"
  and dumps_items :: "nat \<Rightarrow> nat \<Rightarrow> (string \<times> json) list \<Rightarrow> string" where
  "dumps ind level (JString s) = encode_string s"
| "dumps ind level (JInt i) = show_int i"
| "dumps ind level (JObject []) = ''{}''"
| "dumps ind level (JObject (kv # kvs)) =
     ''{'' @ newline_indent ind (Suc level) @ dumps_items ind (Suc level) (kv # kvs)
       @ newline_indent ind level @ ''}''"
| "dumps_items ind level [] = []"
| "dumps_items ind level [(k, v)] = encode_string k @ '': '' @ dumps ind level v"
| "dumps_items ind level ((k, v) # kv # kvs) =
     encode_string k @ '': '' @ dumps ind level v @ '','' @ newline_indent ind level
       @ dumps_items ind level (kv # kvs)"

definition json_dumps :: "nat \<Rightarrow> json \<Rightarrow> string" where
  "json_dumps ind v = dumps ind 0 v"

section \<open>The Interactive Loop\<close>

text \<open>How one pass through the body of \<open>while True\<close> ends.\<close>

datatype flow = Continue | Break

definition quit_words :: "string list" where
  "quit_words = [''quit'', ''exit'', ''q'']"

definition prompt :: string where
  "prompt = newline @ glyph_speech @ '' Your question: ''"

definition farewell :: string where
  "farewell = newline @ glyph_wave @ '' Goodbye!''"

definition error_report :: "exn \<Rightarrow> string" where
  "error_report e = newline @ glyph_cross @ '' Error: '' @ str_exn e"

definition timing_report :: "rat \<Rightarrow> string" where
  "timing_report elapsed = glyph_stopwatch @ ''  Execution time: '' @ format_2f elapsed @ ''s''"

text \<open>The PROCESSING state: the four statements after the two tests of the \<open>try\<close> block.\<close>

definition processing :: "string \<Rightarrow> flow io" where
  "processing q =
     bind time_time (\<lambda>start_time.
     bind (execute_workflow q) (\<lambda>result.
     bind time_time (\<lambda>end_time.
     let elapsed = end_time - start_time in
     seq (print (timing_report elapsed)) (return Continue))))"

text \<open>The \<open>try\<close> block of the loop.\<close>

definition loop_try :: "flow io" where
  "loop_try =
     bind (py_input prompt) (\<lambda>line.
     let q = strip line in
     if lower q \<in> set quit_words then seq (print farewell) (return Break)
     else if q = [] then return Continue
     else processing q)"

text \<open>The \<open>try\<close> statement with its two handlers. An exception that neither handler takes,
  or that a handler itself raises, leaves the loop.\<close>

definition loop_body :: "flow io" where
  "loop_body w = (case loop_try w of
       (Inr f, w') \<Rightarrow> (Inr f, w')
     | (Inl e, w') \<Rightarrow>
         if e = KeyboardInterrupt then seq (print (newline @ farewell)) (return Break) w'
         else if is_Exception e then seq (print (error_report e)) (return Continue) w'
         else (Inl e, w'))"

text \<open>\<open>while True\<close>: the result is \<open>None\<close> when the loop runs forever.\<close>

partial_function (option) interactive_loop :: "world \<Rightarrow> ((exn + unit) \<times> world) option" where
  "interactive_loop w = (case loop_body w of
       (Inl e, w') \<Rightarrow> Some (Inl e, w')
     | (Inr f, w') \<Rightarrow> if f = Break then Some (Inr (), w') else interactive_loop w')"

definition banner :: "unit io" where
  "banner =
     seq (print (replicate 60 CHR ''=''))
    (seq (print ''Gemma RAG + CASCADE Interactive Mode'')
    (seq (print (replicate 60 CHR ''=''))
    (seq (print (newline @ ''Type your questions (or 'quit' to exit)''))
    (print (''Each query will be processed with full provenance tracking'' @ newline)))))"

definition interactive_mode :: "world \<Rightarrow> ((exn + unit) \<times> world) option" where
  "interactive_mode w = (case banner w of
       (Inl e, w') \<Rightarrow> Some (Inl e, w')
     | (Inr u, w') \<Rightarrow> interactive_loop w')"

section \<open>The entry point\<close>

text \<open>\<open>main\<close>, with \<open>sys.argv\<close> as its argument.\<close>

definition main :: "string list \<Rightarrow> world \<Rightarrow> ((exn + unit) \<times> world) option" where
  \<open>main argv w =
     (if length argv > 1 then
        if argv ! 1 \<in> set [''--interactive'', ''-i''] then interactive_mode w
        else
          let q = join '' '' (drop 1 argv) in
          Some (bind (execute_workflow q) (\<lambda>result.
                  print (newline @ glyph_chart @ '' Result: '' @ json_dumps 2 (result_json result))) w)
      else
        Some (seq (print ''Usage:'')
             (seq (print ''  python run_gemma_rag.py "Your question here"'')
             (seq (print ''  python run_gemma_rag.py --interactive'')
             (raise (SystemExit 1)))) w))\<close>

text \<open>How the process ends: \<open>main\<close> returns and the status is 0, \<open>sys.exit(n)\<close> gives the
  status \<open>n\<close>, any other exception reaches the top level and ends the process with a
  traceback.\<close>

datatype outcome = Exited nat | Traceback exn

fun outcome_of :: "exn + unit \<Rightarrow> outcome" where
  "outcome_of (Inr u) = Exited 0"
| "outcome_of (Inl (SystemExit n)) = Exited n"
| "outcome_of (Inl e) = Traceback e"

definition run_gemma_rag :: "string list \<Rightarrow> world \<Rightarrow> (outcome \<times> world) option" where
  "run_gemma_rag argv w = map_option (\<lambda>(r, w'). (outcome_of r, w')) (main argv w)"

section \<open>A JSON decoder\<close>

text \<open>
  The decoder of RFC 8259 on the texts made of objects, strings and integers, with white
  space where the grammar allows it; it gives \<open>None\<close> on any other text. A string may not
  hold a raw control character, an escape other than the nine of the grammar is refused,
  and so is a \<open>\u\<close> escape of a code point from 256 on. An integer has no leading zero and no
  fraction or exponent. The members of an object come in the order of the text. The
  number of nested values is bounded by the length of the text.
\<close>

definition is_ws :: "char \<Rightarrow> bool" where
  "is_ws c = (c = CHR '' '' \<or> c = CHR 0x09 \<or> c = CHR 0x0A \<or> c = CHR 0x0D)"

definition skip_ws :: "string \<Rightarrow> string" where
  "skip_ws s = dropWhile is_ws s"

definition hex_val :: "char \<Rightarrow> nat option" where
  "hex_val c = (let n = (of_char c :: nat) in
     if 48 \<le> n \<and> n \<le> 57 then Some (n - 48)
     else if 97 \<le> n \<and> n \<le> 102 then Some (n - 87)
     else if 65 \<le> n \<and> n \<le> 70 then Some (n - 55)
     else None)"

definition hex4 :: "char \<Rightarrow> char \<Rightarrow> char \<Rightarrow> char \<Rightarrow> nat option" where
  "hex4 a b c d = (case (hex_val a, hex_val b, hex_val c, hex_val d) of
       (Some x, Some y, Some z, Some u) \<Rightarrow> Some (((x * 16 + y) * 16 + z) * 16 + u)
     | _ \<Rightarrow> None)"

definition unescape :: "char \<Rightarrow> char option" where
  "unescape e =
     (if e = dquote then Some dquote
      else if e = backslash then Some backslash
      else if e = CHR ''/'' then Some CHR ''/''
      else if e = CHR ''b'' then Some (CHR 0x08)
      else if e = CHR ''f'' then Some (CHR 0x0C)
      else if e = CHR ''n'' then Some (CHR 0x0A)
      else if e = CHR ''r'' then Some (CHR 0x0D)
      else if e = CHR ''t'' then Some (CHR 0x09)
      else None)"

definition cons_fst :: "char \<Rightarrow> (string \<times> string) option \<Rightarrow> (string \<times> string) option" where
  "cons_fst c r = map_option (\<lambda>(s, rest). (c # s, rest)) r"

fun parse_chars :: "string \<Rightarrow> (string \<times> string) option" where
  "parse_chars [] = None"
| "parse_chars (c # cs) =
     (if c = dquote then Some ([], cs)
      else if c = backslash then
        (case cs of
           [] \<Rightarrow> None
         | e # cs' \<Rightarrow>
             if e = CHR ''u'' then
               (case cs' of
                  h1 # h2 # h3 # h4 # rest \<Rightarrow>
                    (case hex4 h1 h2 h3 h4 of
                       None \<Rightarrow> None
                     | Some n \<Rightarrow> if n < 256 then cons_fst (char_of n) (parse_chars rest) else None)
                | _ \<Rightarrow> None)
             else
               (case unescape e of
                  None \<Rightarrow> None
                | Some x \<Rightarrow> cons_fst x (parse_chars cs')))
      else if (of_char c :: nat) < 32 then None
      else cons_fst c (parse_chars cs))"

definition is_digit :: "char \<Rightarrow> bool" where
  "is_digit c = (let n = (of_char c :: nat) in 48 \<le> n \<and> n \<le> 57)"

definition digits_val :: "string \<Rightarrow> nat" where
  "digits_val ds = foldl (\<lambda>acc c. acc * 10 + ((of_char c :: nat) - 48)) 0 ds"

definition parse_int :: "string \<Rightarrow> (int \<times> string) option" where
  "parse_int s = (let (neg, s1) = (case s of c # cs \<Rightarrow> if c = CHR ''-'' then (True, cs) else (False, s) | [] \<Rightarrow> (False, s));
       ds = takeWhile is_digit s1; rest = dropWhile is_digit s1 in
     if ds = [] then None
     else if hd ds = CHR ''0'' \<and> length ds > 1 then None
     else if rest \<noteq> [] \<and> hd rest \<in> set ''.eE'' then None
     else Some (if neg then - int (digits_val ds) else int (digits_val ds), rest))"

fun parse_value :: "nat \<Rightarrow> string \<Rightarrow> (json \<times> string) option"
  and parse_members :: "nat \<Rightarrow> string \<Rightarrow> ((string \<times> json) list \<times> string) option" where
  "parse_value 0 s = None"
| "parse_value (Suc n) s =
     (case s of
        [] \<Rightarrow> None
      | c # cs \<Rightarrow>
          if c = dquote then map_option (\<lambda>(x, rest). (JString x, rest)) (parse_chars cs)
          else if c = CHR ''{'' then
            (case skip_ws cs of
               [] \<Rightarrow> None
             | d # ds \<Rightarrow>
                 if d = CHR ''}'' then Some (JObject [], ds)
                 else map_option (\<lambda>(kvs, rest). (JObject kvs, rest)) (parse_members n (d # ds)))
          else map_option (\<lambda>(i, rest). (JInt i, rest)) (parse_int s))"
| "parse_members 0 s = None"
| "parse_members (Suc n) s =
     (case s of
        [] \<Rightarrow> None
      | c # cs \<Rightarrow>
          if c \<noteq> dquote then None
          else
            (case parse_chars cs of
               None \<Rightarrow> None
             | Some (k, s1) \<Rightarrow>
                 (case skip_ws s1 of
                    [] \<Rightarrow> None
                  | c1 # s2 \<Rightarrow>
                      if c1 \<noteq> CHR '':'' then None
                      else
                        (case parse_value n (skip_ws s2) of
                           None \<Rightarrow> None
                         | Some (v, s3) \<Rightarrow>
                             (case skip_ws s3 of
                                [] \<Rightarrow> None
                              | c2 # s4 \<Rightarrow>
                                  if c2 = CHR ''}'' then Some ([(k, v)], s4)
                                  else if c2 = CHR '','' then
                                    map_option (\<lambda>(kvs, rest). ((k, v) # kvs, rest))
                                      (parse_members n (skip_ws s4))
                                  else None)))))"

definition json_loads :: "string \<Rightarrow> json option" where
  "json_loads s = (case parse_value (length s) (skip_ws s) of
       None \<Rightarrow> None
     | Some (v, rest) \<Rightarrow> if skip_ws rest = [] then Some v else None)"

section \<open>A world for the examples\<close>

text \<open>The lines of its input, the exceptions of the numbered calls (the first call is
  number 0), nothing written yet, and a clock that advances by an eighth of a second per
  call. In \<open>test_world\<close> the input is a pipe or a file, in \<open>test_terminal\<close> input and output
  are a terminal.\<close>

definition test_world :: "string list \<Rightarrow> (nat \<times> exn) list \<Rightarrow> world" where
  "test_world ls fs =
     \<lparr> stdin = ls, stdout = [], calls = 0, faults = map_of fs, clock = (\<lambda>n. of_nat n / 8),
       tty = False, stderr = [] \<rparr>"

definition test_terminal :: "string list \<Rightarrow> (nat \<times> exn) list \<Rightarrow> world" where
  "test_terminal ls fs = (test_world ls fs)\<lparr>tty := True\<rparr>"

section \<open>Calls to the outside\<close>

lemma outside_ok: "faults w (calls w) = None \<Longrightarrow> outside f w = f (w\<lparr>calls := Suc (calls w)\<rparr>)"
  by (simp add: outside_def)

lemma outside_fault: "faults w (calls w) = Some e \<Longrightarrow> outside f w = (Inl e, w\<lparr>calls := Suc (calls w)\<rparr>)"
  by (simp add: outside_def)

lemma print_ok:
  "faults w (calls w) = None \<Longrightarrow>
   print s w = (Inr (), w\<lparr>calls := Suc (calls w), stdout := stdout w @ [s @ newline]\<rparr>)"
  by (simp add: print_def stdout_write_def outside_ok)

lemma print_fault:
  "faults w (calls w) = Some e \<Longrightarrow> print s w = (Inl e, w\<lparr>calls := Suc (calls w)\<rparr>)"
  by (simp add: print_def stdout_write_def outside_fault)

lemma seq_print_ok:
  "faults w (calls w) = None \<Longrightarrow>
   seq (print s) k w = k (w\<lparr>calls := Suc (calls w), stdout := stdout w @ [s @ newline]\<rparr>)"
  by (simp add: seq_def bind_def print_ok)

lemma no_fault_Suc:
  "no_fault (Suc k) w \<longleftrightarrow> faults w (calls w) = None \<and> no_fault k (w\<lparr>calls := Suc (calls w)\<rparr>)"
proof -
  have "(\<forall>i<Suc k. faults w (calls w + i) = None) \<longleftrightarrow>
        faults w (calls w) = None \<and> (\<forall>i<k. faults w (Suc (calls w + i)) = None)"
    by (auto simp: less_Suc_eq_0_disj)
  then show ?thesis by (simp add: no_fault_def)
qed

lemma no_fault_stdout [simp]: "no_fault k (w\<lparr>stdout := x\<rparr>) = no_fault k w"
  by (simp add: no_fault_def)

lemma no_fault_stdin [simp]: "no_fault k (w\<lparr>stdin := x\<rparr>) = no_fault k w"
  by (simp add: no_fault_def)

lemma execute_workflow_ok:
  assumes "no_fault 5 w"
  shows "execute_workflow q w =
    (Inr \<lparr> workflow_id = ''gemma-rag-cascade'', input = \<lparr> query = q \<rparr>,
     status = ''completed'', nodes_executed = 13, merkle_root = ''4fcd7d2a62aa31a3'' \<rparr>,
     w\<lparr>calls := calls w + 5,
       stdout := stdout w @
         [newline @ glyph_magnifier @ '' Query: '' @ q @ newline,
          glyph_gear @ ''  Executing workflow...'' @ newline,
          glyph_check @ '' Workflow completed'' @ newline,
          glyph_check @ '' Nodes executed: 13/13'' @ newline,
          glyph_check @ '' Merkle root: 4fcd7d2a62aa31a3'' @ newline]\<rparr>)"
proof -
  have s13: "show_int 13 = ''13''"
    by code_simp
  from assms have f: "faults w (calls w) = None" "faults w (Suc (calls w)) = None"
    "faults w (Suc (Suc (calls w))) = None" "faults w (Suc (Suc (Suc (calls w)))) = None"
    "faults w (Suc (Suc (Suc (Suc (calls w))))) = None"
    by (simp_all add: eval_nat_numeral no_fault_Suc)
  show ?thesis
    by (simp add: execute_workflow_def Let_def seq_print_ok f s13 return_def)
qed


section \<open>Decoding what the encoder wrote\<close>

lemma hex_val_hex_digit: "d < 16 \<Longrightarrow> hex_val (hex_digit d) = Some d"
proof -
  assume "d < 16"
  then have "d \<in> {0,1,2,3,4,5,6,7,8,9,10,11,12,13,14,15}" by (simp; arith)
  then show ?thesis
    by (auto simp: hex_val_def hex_digit_def Let_def)
qed

lemma hex_val_zero: "hex_val CHR ''0'' = Some 0"
  by (simp add: hex_val_def)

lemma hex4_escape: "hex4 CHR ''0'' CHR ''0'' (hex_digit (of_char c div 16)) (hex_digit (of_char c mod 16)) = Some (of_char c)"
proof -
  have a: "(of_char c :: nat) div 16 < 16" using nat_of_char_less_256 [of c] by arith
  have b: "(of_char c :: nat) mod 16 < 16" by simp
  show ?thesis
    by (simp add: hex4_def hex_val_zero hex_val_hex_digit [OF a] hex_val_hex_digit [OF b])
qed

lemma char_eq_of_char: "(of_char c :: nat) = of_char d \<Longrightarrow> c = d"
  by simp


lemma parse_chars_plain:
  "c \<noteq> dquote \<Longrightarrow> c \<noteq> backslash \<Longrightarrow> 32 \<le> (of_char c :: nat) \<Longrightarrow>
   parse_chars (c # t) = cons_fst c (parse_chars t)"
  by simp

lemma parse_chars_short:
  "unescape e = Some x \<Longrightarrow> e \<noteq> CHR ''u'' \<Longrightarrow>
   parse_chars (backslash # e # t) = cons_fst x (parse_chars t)"
  by (simp add: backslash_def dquote_def)

lemma parse_chars_hex:
  "parse_chars (backslash # CHR ''u'' # CHR ''0'' # CHR ''0'' # hex_digit (of_char c div 16) # hex_digit (of_char c mod 16) # t)
     = cons_fst c (parse_chars t)"
  by (simp add: backslash_def dquote_def hex4_escape nat_of_char_less_256)

lemma parse_chars_escape_char: "parse_chars (escape_char c @ t) = cons_fst c (parse_chars t)"
proof -
  let ?n = "of_char c :: nat"
  consider (bs) "c = backslash" | (dq) "c = dquote"
    | (plain) "c \<noteq> backslash" "c \<noteq> dquote" "32 \<le> ?n" "?n \<le> 126"
    | (b) "?n = 8" | (f) "?n = 12" | (n) "?n = 10" | (r) "?n = 13" | (t) "?n = 9"
    | (hex) "c \<noteq> backslash" "c \<noteq> dquote" "\<not> (32 \<le> ?n \<and> ?n \<le> 126)"
        "?n \<noteq> 8" "?n \<noteq> 12" "?n \<noteq> 10" "?n \<noteq> 13" "?n \<noteq> 9"
    by blast
  then show ?thesis
  proof cases
    case bs
    then show ?thesis
      using parse_chars_short [of backslash backslash t]
      by (simp add: escape_char_def unescape_def backslash_def dquote_def)
  next
    case dq
    then show ?thesis
      using parse_chars_short [of dquote dquote t]
      by (simp add: escape_char_def unescape_def backslash_def dquote_def)
  next
    case plain
    then show ?thesis
      by (simp add: escape_char_def parse_chars_plain del: parse_chars.simps)
  next
    case b
    then have "c = CHR 0x08" by (intro char_eq_of_char) simp
    then show ?thesis
      using parse_chars_short [of "CHR ''b''" "CHR 0x08" t]
      by (simp add: escape_char_def unescape_def backslash_def dquote_def)
  next
    case f
    then have "c = CHR 0x0C" by (intro char_eq_of_char) simp
    then show ?thesis
      using parse_chars_short [of "CHR ''f''" "CHR 0x0C" t]
      by (simp add: escape_char_def unescape_def backslash_def dquote_def)
  next
    case n
    then have "c = CHR 0x0A" by (intro char_eq_of_char) simp
    then show ?thesis
      using parse_chars_short [of "CHR ''n''" "CHR 0x0A" t]
      by (simp add: escape_char_def unescape_def backslash_def dquote_def)
  next
    case r
    then have "c = CHR 0x0D" by (intro char_eq_of_char) simp
    then show ?thesis
      using parse_chars_short [of "CHR ''r''" "CHR 0x0D" t]
      by (simp add: escape_char_def unescape_def backslash_def dquote_def)
  next
    case t
    then have "c = CHR 0x09" by (intro char_eq_of_char) simp
    then show ?thesis
      using parse_chars_short [of "CHR ''t''" "CHR 0x09" t]
      by (simp add: escape_char_def unescape_def backslash_def dquote_def)
  next
    case hex
    then show ?thesis
      by (auto simp: escape_char_def Let_def parse_chars_hex simp del: parse_chars.simps)
  qed
qed

lemma parse_chars_escaped:
  "parse_chars (concat (map escape_char s) @ dquote # rest) = Some (s, rest)"
  by (induction s) (simp_all add: parse_chars_escape_char cons_fst_def del: parse_chars.simps, simp)


lemma parse_chars_escaped':
  "parse_chars (concat (map escape_char s) @ CHR 0x22 # rest) = Some (s, rest)"
  using parse_chars_escaped [of s rest] by (simp add: dquote_def)

lemma show_int_13: "show_int 13 = ''13''"
  by code_simp

lemma parse_int_13: "parse_int (CHR ''1'' # CHR ''3'' # CHR '','' # rest) = Some (13, CHR '','' # rest)"
  by (simp add: parse_int_def is_digit_def digits_val_def Let_def)

lemma json_dumps_result:
  \<open>json_dumps 2 (result_json \<lparr> workflow_id = ''gemma-rag-cascade'', input = \<lparr> query = q \<rparr>,
       status = ''completed'', nodes_executed = 13, merkle_root = ''4fcd7d2a62aa31a3'' \<rparr>) =
   ''{'' @ newline @
   ''  "workflow_id": "gemma-rag-cascade",'' @ newline @
   ''  "input": {'' @ newline @
   ''    "query": '' @ encode_string q @ newline @
   ''  },'' @ newline @
   ''  "status": "completed",'' @ newline @
   ''  "nodes_executed": 13,'' @ newline @
   ''  "merkle_root": "4fcd7d2a62aa31a3"'' @ newline @
   ''}''\<close>
  by (simp add: json_dumps_def result_json_def newline_indent_def encode_string_def
      escape_char_def backslash_def dquote_def show_int_13 eval_nat_numeral newline_def)

lemma json_loads_result:
  \<open>json_loads (
   ''{'' @ newline @
   ''  "workflow_id": "gemma-rag-cascade",'' @ newline @
   ''  "input": {'' @ newline @
   ''    "query": '' @ encode_string q @ newline @
   ''  },'' @ newline @
   ''  "status": "completed",'' @ newline @
   ''  "nodes_executed": 13,'' @ newline @
   ''  "merkle_root": "4fcd7d2a62aa31a3"'' @ newline @
   ''}'') = Some (JObject
     [(''workflow_id'', JString ''gemma-rag-cascade''),
      (''input'', JObject [(''query'', JString q)]),
      (''status'', JString ''completed''),
      (''nodes_executed'', JInt 13),
      (''merkle_root'', JString ''4fcd7d2a62aa31a3'')])\<close>
  by (simp add: json_loads_def newline_def encode_string_def skip_ws_def is_ws_def
      dquote_def backslash_def parse_chars_escaped' cons_fst_def unescape_def parse_int_13)


section \<open>The Query Runner returns its query and two constants\<close>

lemma no_fault_test_world: "no_fault k (test_world ls [])"
  by (simp add: no_fault_def test_world_def)

text \<open>
  C1. The Query Runner returns a result whose \<open>input.query\<close> is the query it was given,
  character for character, when none of its five \<open>print\<close> calls raises. This holds for
  every query string, the empty one included.
\<close>

theorem execute_workflow_returns_query:
  assumes "no_fault 5 w"
  shows "\<exists>r w'. execute_workflow q w = (Inr r, w') \<and> query (input r) = q"
  using execute_workflow_ok [OF assms, of q] by simp

theorem execute_workflow_returns_query_witness:
  "no_fault 5 (test_world [] []) \<and>
   (\<exists>r w'. execute_workflow ''What is RAG?'' (test_world [] []) = (Inr r, w')
      \<and> query (input r) = ''What is RAG?'')"
proof -
  have h: "no_fault 5 (test_world [] [])"
    by (simp add: no_fault_def test_world_def)
  from execute_workflow_returns_query [OF h, of "''What is RAG?''"] h show ?thesis
    by blast
qed

text \<open>
  C2. Whatever the query, the result returned by the Query Runner has \<open>nodes_executed\<close>
  equal to 13 and \<open>merkle_root\<close> equal to \<open>4fcd7d2a62aa31a3\<close>.
\<close>

theorem execute_workflow_constants:
  assumes "no_fault 5 w"
  shows "\<exists>r w'. execute_workflow q w = (Inr r, w') \<and> nodes_executed r = 13
           \<and> merkle_root r = ''4fcd7d2a62aa31a3''"
  using execute_workflow_ok [OF assms, of q] by simp

theorem execute_workflow_constants_witness:
  "no_fault 5 (test_world [] []) \<and>
   (\<exists>r w'. execute_workflow ''tell me more'' (test_world [] []) = (Inr r, w')
      \<and> nodes_executed r = 13 \<and> merkle_root r = ''4fcd7d2a62aa31a3'')"
proof -
  have h: "no_fault 5 (test_world [] [])"
    by (simp add: no_fault_def test_world_def)
  from execute_workflow_constants [OF h, of "''tell me more''"] h show ?thesis
    by blast
qed

section \<open>The entry point without arguments\<close>

text \<open>
  C7. With no argument after the program's name, the program prints the three lines of the
  usage text, the first being \<open>Usage:\<close>, and exits with status 1. Nothing else is written,
  nothing is read and no further call is made: neither the Query Runner nor the
  Interactive Loop runs.
\<close>

theorem no_arguments_usage_exit_1:
  assumes "length argv \<le> 1" and "no_fault 3 w"
  shows \<open>run_gemma_rag argv w = Some (Exited 1,
           w\<lparr>calls := calls w + 3,
             stdout := stdout w @
               [''Usage:'' @ newline,
                ''  python run_gemma_rag.py "Your question here"'' @ newline,
                ''  python run_gemma_rag.py --interactive'' @ newline]\<rparr>)\<close>
proof -
  from assms(2) have f: "faults w (calls w) = None" "faults w (Suc (calls w)) = None"
    "faults w (Suc (Suc (calls w))) = None"
    by (simp_all add: eval_nat_numeral no_fault_Suc)
  from assms(1) have "\<not> 1 < length argv" by simp
  then show ?thesis
    by (simp add: run_gemma_rag_def main_def seq_print_ok f raise_def)
qed

theorem no_arguments_usage_exit_1_witness:
  \<open>length [''run_gemma_rag.py''] \<le> 1 \<and> no_fault 3 (test_world [''quit''] []) \<and>
   map_option (\<lambda>(r, w). (r, stdout w, stdin w)) (run_gemma_rag [''run_gemma_rag.py''] (test_world [''quit''] [])) =
     Some (Exited 1,
       [''Usage:'' @ newline,
        ''  python run_gemma_rag.py "Your question here"'' @ newline,
        ''  python run_gemma_rag.py --interactive'' @ newline], [''quit''])\<close>
proof -
  have h1: "length [''run_gemma_rag.py''] \<le> 1" by simp
  have h2: "no_fault 3 (test_world [''quit''] [])"
    by (simp add: no_fault_def test_world_def)
  from no_arguments_usage_exit_1 [OF h1 h2] h2 show ?thesis
    by (simp add: test_world_def)
qed

section \<open>Single-shot mode\<close>

lemma single_shot:
  assumes "a \<notin> {''--interactive'', ''-i''}" and "no_fault 6 w"
  shows "main (prog # a # rest) w = Some (Inr (),
    w\<lparr>calls := calls w + 6,
      stdout := stdout w @
        [newline @ glyph_magnifier @ '' Query: '' @ join '' '' (a # rest) @ newline,
         glyph_gear @ ''  Executing workflow...'' @ newline,
         glyph_check @ '' Workflow completed'' @ newline,
         glyph_check @ '' Nodes executed: 13/13'' @ newline,
         glyph_check @ '' Merkle root: 4fcd7d2a62aa31a3'' @ newline,
         newline @ glyph_chart @ '' Result: '' @
           json_dumps 2 (result_json \<lparr> workflow_id = ''gemma-rag-cascade'',
             input = \<lparr> query = join '' '' (a # rest) \<rparr>, status = ''completed'',
             nodes_executed = 13, merkle_root = ''4fcd7d2a62aa31a3'' \<rparr>) @ newline]\<rparr>)"
proof -
  from assms(2) have five: "no_fault 5 w" and sixth: "faults w (calls w + 5) = None"
    by (simp_all add: no_fault_def)
  from assms(1) have "a \<noteq> ''--interactive''" "a \<noteq> ''-i''" by simp_all
  then show ?thesis
    by (simp add: main_def Let_def bind_def execute_workflow_ok [OF five] print_ok sixth)
qed

text \<open>
  C10. When the first argument is neither \<open>--interactive\<close> nor \<open>-i\<close>, \<open>main\<close> joins all the
  arguments with single spaces and runs the Query Runner once on the joined string, then
  prints the result once: six calls to the outside in all. The other arguments are
  arbitrary, so a flag in a later position is part of the query.
\<close>

theorem main_joins_arguments:
  assumes "a \<notin> {''--interactive'', ''-i''}" and "no_fault 6 w"
  shows "\<exists>r w1 w2.
     execute_workflow (join '' '' (a # rest)) w = (Inr r, w1) \<and>
     print (newline @ glyph_chart @ '' Result: '' @ json_dumps 2 (result_json r)) w1 = (Inr (), w2) \<and>
     main (prog # a # rest) w = Some (Inr (), w2) \<and>
     calls w2 = calls w + 6"
proof -
  from assms(2) have five: "no_fault 5 w" and sixth: "faults w (calls w + 5) = None"
    by (simp_all add: no_fault_def)
  show ?thesis
    by (simp add: single_shot [OF assms] execute_workflow_ok [OF five] print_ok sixth)
qed

theorem main_joins_arguments_witness:
  "''foo'' \<notin> {''--interactive'', ''-i''} \<and> no_fault 6 (test_world [] []) \<and>
   join '' '' [''foo'', ''bar''] = ''foo bar'' \<and>
   join '' '' [''foo'', ''-i'', ''bar''] = ''foo -i bar'' \<and>
   (\<exists>r w1 w2.
     execute_workflow ''foo -i bar'' (test_world [] []) = (Inr r, w1) \<and>
     print (newline @ glyph_chart @ '' Result: '' @ json_dumps 2 (result_json r)) w1 = (Inr (), w2) \<and>
     main [''run_gemma_rag.py'', ''foo'', ''-i'', ''bar''] (test_world [] []) = Some (Inr (), w2) \<and>
     calls w2 = 6)"
proof -
  have h1: "''foo'' \<notin> {''--interactive'', ''-i''}" by simp
  have h2: "no_fault 6 (test_world [] [])" by (rule no_fault_test_world)
  have j: "join '' '' [''foo'', ''-i'', ''bar''] = ''foo -i bar''" by simp
  have c: "calls (test_world [] []) = 0" by (simp add: test_world_def)
  from main_joins_arguments [OF h1 h2, where rest = "[''-i'', ''bar'']" and prog = "''run_gemma_rag.py''"]
  show ?thesis
    unfolding j c using h1 h2 by simp
qed

text \<open>
  C3. In single-shot mode the program runs the Query Runner once and exits with status 0.
  The last thing it prints is the result as a JSON object whose members are indented by
  two spaces per level; the decoder reads that text as an object whose key
  \<open>workflow_id\<close> has the value \<open>gemma-rag-cascade\<close>.
\<close>

theorem single_shot_prints_json:
  assumes "a \<notin> {''--interactive'', ''-i''}" and "no_fault 6 w"
  shows \<open>\<exists>w' J members.
     run_gemma_rag (prog # a # rest) w = Some (Exited 0, w') \<and>
     calls w' = calls w + 6 \<and>
     last (stdout w') = newline @ glyph_chart @ '' Result: '' @ J @ newline \<and>
     J = ''{'' @ newline @
         ''  "workflow_id": "gemma-rag-cascade",'' @ newline @
         ''  "input": {'' @ newline @
         ''    "query": '' @ encode_string (join '' '' (a # rest)) @ newline @
         ''  },'' @ newline @
         ''  "status": "completed",'' @ newline @
         ''  "nodes_executed": 13,'' @ newline @
         ''  "merkle_root": "4fcd7d2a62aa31a3"'' @ newline @
         ''}'' \<and>
     json_loads J = Some (JObject members) \<and>
     map_of members ''workflow_id'' = Some (JString ''gemma-rag-cascade'')\<close>
proof -
  let ?q = "join '' '' (a # rest)"
  let ?r = "\<lparr> workflow_id = ''gemma-rag-cascade'', input = \<lparr> query = ?q \<rparr>,
    status = ''completed'', nodes_executed = 13, merkle_root = ''4fcd7d2a62aa31a3'' \<rparr>"
  let ?members = "[(''workflow_id'', JString ''gemma-rag-cascade''),
      (''input'', JObject [(''query'', JString ?q)]),
      (''status'', JString ''completed''),
      (''nodes_executed'', JInt 13),
      (''merkle_root'', JString ''4fcd7d2a62aa31a3'')]"
  obtain w' where m: "main (prog # a # rest) w = Some (Inr (), w')"
    and c: "calls w' = calls w + 6"
    and l: "last (stdout w') = newline @ glyph_chart @ '' Result: '' @ json_dumps 2 (result_json ?r) @ newline"
    using single_shot [OF assms, of prog rest] by simp
  have r: "run_gemma_rag (prog # a # rest) w = Some (Exited 0, w')"
    by (simp add: run_gemma_rag_def m)
  have k: "map_of ?members ''workflow_id'' = Some (JString ''gemma-rag-cascade'')"
    by simp
  show ?thesis
    apply (rule exI [of _ w'])
    apply (rule exI [of _ "json_dumps 2 (result_json ?r)"])
    apply (rule exI [of _ ?members])
    apply (intro conjI)
         apply (rule r)
        apply (rule c)
       apply (rule l)
      apply (rule json_dumps_result)
     apply (subst json_dumps_result)
     apply (rule json_loads_result)
    apply (rule k)
    done
qed

theorem single_shot_prints_json_witness:
  \<open>''What is RAG?'' \<notin> {''--interactive'', ''-i''} \<and> no_fault 6 (test_world [] []) \<and>
   (\<exists>w' J members.
     run_gemma_rag [''run_gemma_rag.py'', ''What is RAG?''] (test_world [] []) = Some (Exited 0, w') \<and>
     calls w' = 6 \<and>
     last (stdout w') = newline @ glyph_chart @ '' Result: '' @ J @ newline \<and>
     J = ''{'' @ newline @
         ''  "workflow_id": "gemma-rag-cascade",'' @ newline @
         ''  "input": {'' @ newline @
         ''    "query": "What is RAG?"'' @ newline @
         ''  },'' @ newline @
         ''  "status": "completed",'' @ newline @
         ''  "nodes_executed": 13,'' @ newline @
         ''  "merkle_root": "4fcd7d2a62aa31a3"'' @ newline @
         ''}'' \<and>
     json_loads J = Some (JObject members) \<and>
     map_of members ''workflow_id'' = Some (JString ''gemma-rag-cascade''))\<close>
proof -
  have h1: "''What is RAG?'' \<notin> {''--interactive'', ''-i''}" by simp
  have h2: "no_fault 6 (test_world [] [])" by (rule no_fault_test_world)
  have e: \<open>encode_string (join '' '' [''What is RAG?'']) = ''"What is RAG?"''\<close>
    by (simp add: encode_string_def escape_char_def backslash_def dquote_def)
  have c: "calls (test_world [] []) = 0" by (simp add: test_world_def)
  from single_shot_prints_json [OF h1 h2, where rest = "[]" and prog = "''run_gemma_rag.py''"]
  show ?thesis
    unfolding e c using h1 h2 by simp
qed

section \<open>One pass of the Interactive Loop\<close>

lemma test_world_fields [simp]:
  "stdin (test_world ls fs) = ls" "stdout (test_world ls fs) = []"
  "calls (test_world ls fs) = 0" "faults (test_world ls fs) = map_of fs"
  "tty (test_world ls fs) = False" "stderr (test_world ls fs) = []"
  by (simp_all add: test_world_def)

lemma test_terminal_fields [simp]:
  "stdin (test_terminal ls fs) = ls" "stdout (test_terminal ls fs) = []"
  "calls (test_terminal ls fs) = 0" "faults (test_terminal ls fs) = map_of fs"
  "tty (test_terminal ls fs) = True" "stderr (test_terminal ls fs) = []"
  by (simp_all add: test_terminal_def)

lemma no_fault_at: "no_fault k w \<Longrightarrow> i < k \<Longrightarrow> faults w (calls w + i) = None"
  by (simp add: no_fault_def)

lemma py_input_line:
  assumes "no_fault 2 w" and "stdin w = l # ls" and "\<not> tty w"
  shows "py_input p w = (Inr l, w\<lparr>calls := calls w + 2, stdout := stdout w @ [p], stdin := ls\<rparr>)"
proof -
  from assms(1) have f: "faults w (calls w) = None" "faults w (Suc (calls w)) = None"
    by (simp_all add: eval_nat_numeral no_fault_Suc)
  show ?thesis
    by (simp add: py_input_def seq_def bind_def stdout_write_def read_line_def outside_ok f assms(2,3))
qed

lemma py_input_eof:
  assumes "no_fault 2 w" and "stdin w = []" and "\<not> tty w"
  shows "py_input p w = (Inl (EOFError ''EOF when reading a line''),
           w\<lparr>calls := calls w + 2, stdout := stdout w @ [p]\<rparr>)"
proof -
  from assms(1) have f: "faults w (calls w) = None" "faults w (Suc (calls w)) = None"
    by (simp_all add: eval_nat_numeral no_fault_Suc)
  show ?thesis
    by (simp add: py_input_def seq_def bind_def stdout_write_def read_line_def outside_ok f assms(2,3))
qed

lemma terminal_input_line:
  assumes "tty w" and "faults w (calls w) = None" and "stdin w = l # ls"
  shows "py_input p w = (Inr l, w\<lparr>calls := Suc (calls w), stderr := stderr w @ [p], stdin := ls\<rparr>)"
  by (simp add: py_input_def terminal_readline_def outside_def assms)

lemma terminal_input_eof:
  assumes "tty w" and "faults w (calls w) = None" and "stdin w = []"
  shows "py_input p w = (Inl (EOFError []), w\<lparr>calls := Suc (calls w), stderr := stderr w @ [p]\<rparr>)"
  by (simp add: py_input_def terminal_readline_def outside_def assms)

lemma terminal_input_fault:
  assumes "tty w" and "faults w (calls w) = Some e"
  shows "py_input p w = (Inl e, w\<lparr>calls := Suc (calls w), stderr := stderr w @ [p]\<rparr>)"
  by (simp add: py_input_def terminal_readline_def outside_def assms)

lemma time_time_ok:
  "faults w (calls w) = None \<Longrightarrow>
   time_time w = (Inr (clock w (Suc (calls w))), w\<lparr>calls := Suc (calls w)\<rparr>)"
  by (simp add: time_time_def outside_ok)

lemma processing_ok:
  assumes "no_fault 8 w"
  shows "processing q w = (Inr Continue,
    w\<lparr>calls := calls w + 8,
      stdout := stdout w @
        [newline @ glyph_magnifier @ '' Query: '' @ q @ newline,
         glyph_gear @ ''  Executing workflow...'' @ newline,
         glyph_check @ '' Workflow completed'' @ newline,
         glyph_check @ '' Nodes executed: 13/13'' @ newline,
         glyph_check @ '' Merkle root: 4fcd7d2a62aa31a3'' @ newline,
         timing_report (clock w (calls w + 7) - clock w (calls w + 1)) @ newline]\<rparr>)"
proof -
  let ?w1 = "w\<lparr>calls := Suc (calls w)\<rparr>"
  from assms have f0: "faults w (calls w) = None" and nf: "no_fault 7 ?w1"
    by (simp_all add: eval_nat_numeral no_fault_Suc)
  from nf have five: "no_fault 5 ?w1"
    by (simp add: no_fault_def)
  from assms have "faults w (calls w + 6) = None" and "faults w (calls w + 7) = None"
    by (simp_all add: no_fault_def)
  then have f6: "faults w (6 + calls w) = None" and f7: "faults w (7 + calls w) = None"
    by (simp_all add: add.commute)
  show ?thesis
    by (simp add: processing_def bind_def time_time_ok f0 execute_workflow_ok [OF five]
        f6 f7 Let_def seq_print_ok return_def) (simp add: add.commute)
qed

lemma loop_break: "loop_body w = (Inr Break, w') \<Longrightarrow> interactive_loop w = Some (Inr (), w')"
  by (subst interactive_loop.simps) simp

lemma loop_continue: "loop_body w = (Inr Continue, w') \<Longrightarrow> interactive_loop w = interactive_loop w'"
  by (subst interactive_loop.simps) simp

lemma loop_escape: "loop_body w = (Inl e, w') \<Longrightarrow> interactive_loop w = Some (Inl e, w')"
  by (subst interactive_loop.simps) simp

lemma quit_line_examples:
  "lower (strip ''quit'') \<in> set quit_words" "lower (strip ''QUIT'') \<in> set quit_words"
  "lower (strip ''  quit  '') \<in> set quit_words" "lower (strip ''What is RAG?'') \<notin> set quit_words"
  by code_simp+

lemma exception_handled:
  assumes "loop_try w = (Inl e, w1)" and "is_Exception e" and "faults w1 (calls w1) = None"
  shows "loop_body w = (Inr Continue,
           w1\<lparr>calls := Suc (calls w1),
              stdout := stdout w1 @ [newline @ glyph_cross @ '' Error: '' @ str_exn e @ newline]\<rparr>)"
proof -
  from assms(2) have k: "e \<noteq> KeyboardInterrupt" by auto
  show ?thesis
    by (simp add: loop_body_def assms k seq_print_ok return_def error_report_def)
qed

lemma eof_try:
  assumes "stdin w = []" and "no_fault 2 w" and "\<not> tty w"
  shows "loop_try w = (Inl (EOFError ''EOF when reading a line''),
           w\<lparr>calls := calls w + 2, stdout := stdout w @ [prompt]\<rparr>)"
  by (simp add: loop_try_def bind_def py_input_eof [OF assms(2) assms(1) assms(3)])

lemma eof_step:
  assumes "stdin w = []" and "no_fault 3 w" and "\<not> tty w"
  shows "loop_body w = (Inr Continue,
           w\<lparr>calls := calls w + 3,
             stdout := stdout w @
               [prompt, newline @ glyph_cross @ '' Error: EOF when reading a line'' @ newline]\<rparr>)"
proof -
  from assms(2) have two: "no_fault 2 w"
    by (simp add: no_fault_def)
  from no_fault_at [OF assms(2), of 2] have f: "faults w (Suc (Suc (calls w))) = None"
    by simp
  show ?thesis
    using exception_handled [OF eof_try [OF assms(1) two assms(3)]] f by simp
qed

lemma terminal_eof_try:
  assumes "tty t"
    and "faults t (calls t) = Some (EOFError []) \<or> faults t (calls t) = None \<and> stdin t = []"
  shows "loop_try t = (Inl (EOFError []), t\<lparr>calls := Suc (calls t), stderr := stderr t @ [prompt]\<rparr>)"
  using assms(2)
  by (auto simp: loop_try_def bind_def terminal_input_fault [OF assms(1)]
      terminal_input_eof [OF assms(1)])

lemma terminal_eof_step:
  assumes "tty t"
    and "faults t (calls t) = Some (EOFError []) \<or> faults t (calls t) = None \<and> stdin t = []"
    and "faults t (Suc (calls t)) = None"
  shows "loop_body t = (Inr Continue,
           t\<lparr>calls := calls t + 2, stderr := stderr t @ [prompt],
             stdout := stdout t @ [newline @ glyph_cross @ '' Error: '' @ newline]\<rparr>)"
  using exception_handled [OF terminal_eof_try [OF assms(1,2)]] assms(3) by simp

lemma seq_print_not_break: "seq (print s) (return Continue) w \<noteq> (Inr Break, w')"
  by (auto simp: seq_def bind_def return_def split: prod.splits sum.splits)

lemma processing_not_break: "processing q w \<noteq> (Inr Break, w')"
  by (auto simp: processing_def bind_def Let_def seq_def return_def split: prod.splits sum.splits)

lemma break_only_by_quit_or_interrupt:
  assumes "loop_body w = (Inr Break, w')"
  shows "(\<exists>line w1. py_input prompt w = (Inr line, w1) \<and> lower (strip line) \<in> set quit_words)
       \<or> (\<exists>w1. loop_try w = (Inl KeyboardInterrupt, w1))"
proof (cases "loop_try w")
  case (Pair r w1)
  show ?thesis
  proof (cases r)
    case (Inl e)
    with Pair assms seq_print_not_break show ?thesis
      by (auto simp: loop_body_def split: if_splits)
  next
    case (Inr f)
    with Pair assms have b: "loop_try w = (Inr Break, w')"
      by (simp add: loop_body_def)
    obtain r0 w0 where i: "py_input prompt w = (r0, w0)" by (cases "py_input prompt w")
    show ?thesis
    proof (cases r0)
      case (Inl e)
      with i b show ?thesis by (simp add: loop_try_def bind_def)
    next
      case (Inr line)
      with i b processing_not_break show ?thesis
        by (auto simp: loop_try_def bind_def Let_def return_def split: if_splits)
    qed
  qed
qed

lemma drained_step:
  assumes "drained w"
  shows "\<exists>w'. loop_body w = (Inr Continue, w') \<and> drained w'"
proof (cases "tty w")
  case False
  from assms have nf: "no_fault 3 w" and e: "stdin w = []"
    by (simp_all add: drained_def no_fault_def)
  from assms have "drained (w\<lparr>calls := calls w + 3,
      stdout := stdout w @ [prompt, newline @ glyph_cross @ '' Error: EOF when reading a line'' @ newline]\<rparr>)"
    by (simp add: drained_def)
  with eof_step [OF e nf False] show ?thesis by blast
next
  case True
  from assms have f: "faults w (calls w) = None \<and> stdin w = []" "faults w (Suc (calls w)) = None"
    by (simp_all add: drained_def)
  from assms have "drained (w\<lparr>calls := calls w + 2, stderr := stderr w @ [prompt],
      stdout := stdout w @ [newline @ glyph_cross @ '' Error: '' @ newline]\<rparr>)"
    by (simp add: drained_def)
  with terminal_eof_step [OF True disjI2 [OF f(1)] f(2)] show ?thesis by blast
qed

lemma drained_forever: "drained w \<Longrightarrow> interactive_loop w = None"
proof -
  have "\<not> drained w" if r: "interactive_loop w = Some y" for y
  proof (rule interactive_loop.raw_induct [where P = "\<lambda>w y. \<not> drained w", OF _ r])
    fix loop :: "world \<Rightarrow> ((exn + unit) \<times> world) option" and v y
    assume ih: "\<And>x y. loop x = Some y \<Longrightarrow> \<not> drained x"
      and step: "(case loop_body v of (Inl e, w') \<Rightarrow> Some (Inl e, w')
        | (Inr f, w') \<Rightarrow> if f = Break then Some (Inr (), w') else loop w') = Some y"
    show "\<not> drained v"
    proof
      assume d: "drained v"
      from drained_step [OF d] obtain v' where b: "loop_body v = (Inr Continue, v')" and d': "drained v'"
        by blast
      from step b have "loop v' = Some y"
        by simp
      from ih [OF this] d' show False by simp
    qed
  qed
  then show "drained w \<Longrightarrow> interactive_loop w = None"
    by (cases "interactive_loop w") auto
qed

section \<open>Where the exceptions of a pass come from\<close>

lemma tracked_return: "tracked (return x)"
  by (simp add: tracked_def return_def)

lemma tracked_bind:
  assumes "tracked m" and "\<And>x. tracked (f x)"
  shows "tracked (bind m f)"
  unfolding tracked_def
proof (intro allI impI)
  fix w r w'
  assume b: "bind m f w = (r, w')"
  obtain r1 w1 where m: "m w = (r1, w1)" by (cases "m w")
  from assms(1) m have m1: "faults w1 = faults w" "calls w \<le> calls w1"
    and m2: "\<And>e. r1 = Inl e \<Longrightarrow> (\<exists>m. e = EOFError m) \<or> (\<exists>n. calls w \<le> n \<and> n < calls w1 \<and> faults w n = Some e)"
    unfolding tracked_def by blast+
  show "faults w' = faults w \<and> calls w \<le> calls w' \<and>
     (\<forall>e. r = Inl e \<longrightarrow> (\<exists>m. e = EOFError m) \<or> (\<exists>n. calls w \<le> n \<and> n < calls w' \<and> faults w n = Some e))"
  proof (cases r1)
    case (Inl e)
    with b m have "r = Inl e" "w' = w1" by (simp_all add: bind_def)
    with m1 m2 [OF Inl] show ?thesis by auto
  next
    case (Inr x)
    with b m have f: "f x w1 = (r, w')" by (simp add: bind_def)
    from assms(2) [of x] f have f1: "faults w' = faults w1" "calls w1 \<le> calls w'"
      and f2: "\<And>e. r = Inl e \<Longrightarrow> (\<exists>m. e = EOFError m) \<or> (\<exists>n. calls w1 \<le> n \<and> n < calls w' \<and> faults w1 n = Some e)"
      unfolding tracked_def by blast+
    show ?thesis
    proof (intro conjI allI impI)
      show "faults w' = faults w" using f1 m1 by simp
      show "calls w \<le> calls w'" using f1 m1 by simp
      fix e assume "r = Inl e"
      from f2 [OF this] show "(\<exists>m. e = EOFError m) \<or> (\<exists>n. calls w \<le> n \<and> n < calls w' \<and> faults w n = Some e)"
        using m1 by (metis le_trans)
    qed
  qed
qed

lemma tracked_seq: "tracked m \<Longrightarrow> tracked k \<Longrightarrow> tracked (seq m k)"
  by (simp add: seq_def tracked_bind)

lemma tracked_stdout_write: "tracked (stdout_write s)"
  by (auto simp: tracked_def stdout_write_def outside_def Let_def split: option.splits)

lemma tracked_print: "tracked (print s)"
  by (simp add: print_def tracked_stdout_write)

lemma tracked_read_line: "tracked read_line"
  by (auto simp: tracked_def read_line_def outside_def Let_def split: option.splits list.splits)

lemma tracked_terminal_readline: "tracked (terminal_readline p)"
  by (auto simp: tracked_def terminal_readline_def outside_def Let_def split: option.splits list.splits)

lemma tracked_py_input: "tracked (py_input p)"
proof -
  have "tracked (seq (stdout_write p) read_line)"
    by (simp add: tracked_seq tracked_stdout_write tracked_read_line)
  with tracked_terminal_readline [of p] show ?thesis
    unfolding tracked_def py_input_def by (metis (full_types))
qed

lemma tracked_time_time: "tracked time_time"
  by (auto simp: tracked_def time_time_def outside_def Let_def split: option.splits)

lemma tracked_execute_workflow: "tracked (execute_workflow q)"
  by (simp add: execute_workflow_def Let_def tracked_seq tracked_print tracked_return)

lemma tracked_processing: "tracked (processing q)"
  by (simp add: processing_def Let_def tracked_bind tracked_seq tracked_print tracked_return
      tracked_time_time tracked_execute_workflow)

lemma tracked_loop_try: "tracked loop_try"
  by (simp add: loop_try_def Let_def tracked_bind tracked_seq tracked_print tracked_return
      tracked_py_input tracked_processing)

lemma escape_only_by_fault:
  assumes "loop_body w = (Inl e, w')"
  shows "\<exists>n. calls w \<le> n \<and> n < calls w' \<and> faults w n = Some e"
proof -
  obtain r1 w1 where t: "loop_try w = (r1, w1)" by (cases "loop_try w")
  from tracked_loop_try t have t1: "faults w1 = faults w" "calls w \<le> calls w1"
    and t2: "\<And>x. r1 = Inl x \<Longrightarrow> (\<exists>m. x = EOFError m) \<or> (\<exists>n. calls w \<le> n \<and> n < calls w1 \<and> faults w n = Some x)"
    unfolding tracked_def by blast+
  show ?thesis
  proof (cases r1)
    case (Inr f)
    with assms t show ?thesis by (simp add: loop_body_def)
  next
    case (Inl x)
    have handler: "\<exists>n. calls w \<le> n \<and> n < calls w' \<and> faults w n = Some e"
      if h: "seq (print s) (return c) w1 = (Inl e, w')" for s and c :: flow
    proof -
      from h have "faults w1 (calls w1) = Some e \<and> calls w' = Suc (calls w1)"
        by (auto simp: seq_def bind_def print_def stdout_write_def outside_def Let_def return_def
            split: option.splits)
      with t1 show ?thesis by auto
    qed
    show ?thesis
    proof (cases "x = KeyboardInterrupt")
      case True
      with assms t Inl handler show ?thesis by (simp add: loop_body_def)
    next
      case False
      show ?thesis
      proof (cases "is_Exception x")
        case True
        with assms t Inl False handler show ?thesis by (simp add: loop_body_def)
      next
        case n: False
        with assms t Inl False have "e = x" "w' = w1" by (simp_all add: loop_body_def)
        moreover from n have "\<nexists>m. x = EOFError m" by auto
        ultimately show ?thesis using t2 [OF Inl] by simp
      qed
    qed
  qed
qed

lemma quit_pass:
  assumes "py_input prompt w = (Inr line, w1)" and "lower (strip line) \<in> set quit_words"
    and "faults w1 (calls w1) = None"
  shows "loop_body w = (Inr Break, w1\<lparr>calls := Suc (calls w1), stdout := stdout w1 @ [farewell @ newline]\<rparr>)"
  by (simp add: loop_body_def loop_try_def bind_def assms Let_def seq_print_ok return_def)

lemma no_fault_shift:
  assumes "no_fault (j + k) w"
  shows "no_fault k (w\<lparr>calls := calls w + j, stdout := x\<rparr>)"
proof -
  have "faults w (calls w + j + i) = None" if "i < k" for i
    using no_fault_at [OF assms, of "j + i"] that by (simp add: add.assoc)
  then show ?thesis by (simp add: no_fault_def)
qed

lemma interrupt_after_eof_passes:
  assumes "stdin w = []" and "\<not> tty w" and "no_fault (3 * n + 1) w"
    and "faults w (calls w + (3 * n + 1)) = Some KeyboardInterrupt"
    and "faults w (calls w + (3 * n + 2)) = None"
  shows "interactive_loop w = Some (Inr (),
           w\<lparr>calls := calls w + (3 * n + 3),
             stdout := stdout w
               @ concat (replicate n [prompt, newline @ glyph_cross @ '' Error: EOF when reading a line'' @ newline])
               @ [prompt, newline @ farewell @ newline]\<rparr>)"
  using assms
proof (induction n arbitrary: w)
  case 0
  then have f: "faults w (calls w) = None" "faults w (Suc (calls w)) = Some KeyboardInterrupt"
    "faults w (Suc (Suc (calls w))) = None"
    by (simp_all add: no_fault_def)
  have t: "loop_try w = (Inl KeyboardInterrupt, w\<lparr>calls := calls w + 2, stdout := stdout w @ [prompt]\<rparr>)"
    using 0(2) by (simp add: loop_try_def bind_def py_input_def seq_def stdout_write_def read_line_def
        outside_ok outside_fault f)
  have b: "loop_body w = (Inr Break,
      w\<lparr>calls := calls w + 3, stdout := stdout w @ [prompt, newline @ farewell @ newline]\<rparr>)"
    by (simp add: loop_body_def t seq_print_ok f return_def)
  from loop_break [OF b] show ?case by simp
next
  case (Suc n)
  let ?l = "newline @ glyph_cross @ '' Error: EOF when reading a line'' @ newline"
  let ?w' = "w\<lparr>calls := calls w + 3, stdout := stdout w @ [prompt, ?l]\<rparr>"
  from Suc.prems(3) have nf3: "no_fault 3 w"
    by (simp add: no_fault_def)
  from Suc.prems(3) have "no_fault (3 + (3 * n + 1)) w"
    by (simp add: add.commute)
  then have nf': "no_fault (3 * n + 1) ?w'"
    by (rule no_fault_shift)
  have s: "stdin ?w' = []" "\<not> tty ?w'"
    using Suc.prems(1,2) by simp_all
  have f1: "faults ?w' (calls ?w' + (3 * n + 1)) = Some KeyboardInterrupt"
    using Suc.prems(4) by (simp add: add.assoc add.commute add.left_commute)
  have f2: "faults ?w' (calls ?w' + (3 * n + 2)) = None"
    using Suc.prems(5) by (simp add: add.assoc add.commute add.left_commute)
  from loop_continue [OF eof_step [OF Suc.prems(1) nf3 Suc.prems(2)]]
  have "interactive_loop w = interactive_loop ?w'" .
  also from Suc.IH [OF s nf' f1 f2]
  have "interactive_loop ?w' = Some (Inr (),
      ?w'\<lparr>calls := calls ?w' + (3 * n + 3),
        stdout := stdout ?w' @ concat (replicate n [prompt, ?l]) @ [prompt, newline @ farewell @ newline]\<rparr>)" .
  also have "?w'\<lparr>calls := calls ?w' + (3 * n + 3),
        stdout := stdout ?w' @ concat (replicate n [prompt, ?l]) @ [prompt, newline @ farewell @ newline]\<rparr>
      = w\<lparr>calls := calls w + (3 * Suc n + 3),
        stdout := stdout w @ concat (replicate (Suc n) [prompt, ?l]) @ [prompt, newline @ farewell @ newline]\<rparr>"
    by simp
  finally show ?case .
qed

lemma quit_after_terminal_eof:
  assumes "tty k" and "faults k (calls k) = Some (EOFError [])"
    and "faults k (calls k + 1) = None" and "faults k (calls k + 2) = None"
    and "faults k (calls k + 3) = None"
    and "stdin k = line # rest" and "lower (strip line) \<in> set quit_words"
  shows "interactive_loop k = Some (Inr (),
           k\<lparr>calls := calls k + 4, stderr := stderr k @ [prompt, prompt],
             stdout := stdout k @ [newline @ glyph_cross @ '' Error: '' @ newline, farewell @ newline],
             stdin := rest\<rparr>)"
proof -
  let ?k1 = "k\<lparr>calls := calls k + 2, stderr := stderr k @ [prompt],
             stdout := stdout k @ [newline @ glyph_cross @ '' Error: '' @ newline]\<rparr>"
  let ?k2 = "?k1\<lparr>calls := Suc (calls ?k1), stderr := stderr ?k1 @ [prompt], stdin := rest\<rparr>"
  from assms(3) have f1: "faults k (Suc (calls k)) = None" by simp
  from assms(4) have f2: "faults k (Suc (Suc (calls k))) = None" by simp
  from assms(5) have f3': "faults k (Suc (Suc (Suc (calls k)))) = None" by (simp add: numeral_3_eq_3)
  have a: "loop_body k = (Inr Continue, ?k1)"
    by (rule terminal_eof_step [OF assms(1) disjI1 [OF assms(2)] f1])
  have i: "py_input prompt ?k1 = (Inr line, ?k2)"
    by (rule terminal_input_line) (simp_all add: assms(1,6) f2)
  have f3: "faults ?k2 (calls ?k2) = None"
    using f3' by simp
  from loop_continue [OF a] have "interactive_loop k = interactive_loop ?k1" .
  also from loop_break [OF quit_pass [OF i assms(7) f3]]
  have "interactive_loop ?k1 = Some (Inr (),
      ?k2\<lparr>calls := Suc (calls ?k2), stdout := stdout ?k2 @ [farewell @ newline]\<rparr>)" .
  also have "?k2\<lparr>calls := Suc (calls ?k2), stdout := stdout ?k2 @ [farewell @ newline]\<rparr>
      = k\<lparr>calls := calls k + 4, stderr := stderr k @ [prompt, prompt],
             stdout := stdout k @ [newline @ glyph_cross @ '' Error: '' @ newline, farewell @ newline],
             stdin := rest\<rparr>"
    by simp
  finally show ?thesis .
qed

section \<open>Quit words, blank lines, errors, interrupts and the end of the input\<close>

text \<open>
  C4. Once \<open>input\<close> has returned a line, and when no call of the rest of the pass raises:
  if the stripped, lowercased line is one of \<open>quit\<close>, \<open>exit\<close>, \<open>q\<close>, the farewell is printed
  and the loop terminates; for every other line the pass ends without terminating the
  loop, which goes on with the next pass.
\<close>

theorem quit_words_terminate:
  assumes "py_input prompt w = (Inr line, w1)" and "no_fault 8 w1"
  shows "(lower (strip line) \<in> set quit_words \<longrightarrow>
            loop_body w = (Inr Break, w1\<lparr>calls := Suc (calls w1), stdout := stdout w1 @ [farewell @ newline]\<rparr>)
          \<and> interactive_loop w =
              Some (Inr (), w1\<lparr>calls := Suc (calls w1), stdout := stdout w1 @ [farewell @ newline]\<rparr>))
       \<and> (lower (strip line) \<notin> set quit_words \<longrightarrow>
            (\<exists>w'. loop_body w = (Inr Continue, w') \<and> interactive_loop w = interactive_loop w'))"
proof (intro conjI impI)
  assume q: "lower (strip line) \<in> set quit_words"
  from assms(2) have f: "faults w1 (calls w1) = None"
    by (simp add: eval_nat_numeral no_fault_Suc)
  from q show b: "loop_body w = (Inr Break, w1\<lparr>calls := Suc (calls w1), stdout := stdout w1 @ [farewell @ newline]\<rparr>)"
    by (simp add: loop_body_def loop_try_def bind_def assms(1) Let_def seq_print_ok f return_def)
  show "interactive_loop w =
      Some (Inr (), w1\<lparr>calls := Suc (calls w1), stdout := stdout w1 @ [farewell @ newline]\<rparr>)"
    by (rule loop_break [OF b])
next
  assume q: "lower (strip line) \<notin> set quit_words"
  have "\<exists>w'. loop_body w = (Inr Continue, w')"
  proof (cases "strip line = []")
    case True
    with q show ?thesis
      by (simp add: loop_body_def loop_try_def bind_def assms(1) Let_def return_def)
  next
    case False
    with q show ?thesis
      by (simp add: loop_body_def loop_try_def bind_def assms(1) Let_def processing_ok [OF assms(2)])
  qed
  then show "\<exists>w'. loop_body w = (Inr Continue, w') \<and> interactive_loop w = interactive_loop w'"
    using loop_continue by blast
qed

theorem quit_words_terminate_witness:
  "py_input prompt (test_world [''  QUIT  '', ''more''] []) =
     (Inr ''  QUIT  '', (test_world [''  QUIT  '', ''more''] [])\<lparr>calls := 2, stdout := [prompt], stdin := [''more'']\<rparr>)
   \<and> no_fault 8 ((test_world [''  QUIT  '', ''more''] [])\<lparr>calls := 2, stdout := [prompt], stdin := [''more'']\<rparr>)
   \<and> lower (strip ''  QUIT  '') \<in> set quit_words
   \<and> lower (strip ''quit'') \<in> set quit_words
   \<and> lower (strip ''QUIT'') \<in> set quit_words
   \<and> lower (strip ''  quit  '') \<in> set quit_words
   \<and> interactive_loop (test_world [''  QUIT  '', ''more''] []) =
       Some (Inr (), (test_world [''  QUIT  '', ''more''] [])
          \<lparr>calls := 3, stdout := [prompt, farewell @ newline], stdin := [''more'']\<rparr>)
   \<and> py_input prompt (test_world [''What is RAG?''] []) =
     (Inr ''What is RAG?'', (test_world [''What is RAG?''] [])\<lparr>calls := 2, stdout := [prompt], stdin := []\<rparr>)
   \<and> no_fault 8 ((test_world [''What is RAG?''] [])\<lparr>calls := 2, stdout := [prompt], stdin := []\<rparr>)
   \<and> lower (strip ''What is RAG?'') \<notin> set quit_words
   \<and> (\<exists>w'. loop_body (test_world [''What is RAG?''] []) = (Inr Continue, w')
          \<and> interactive_loop (test_world [''What is RAG?''] []) = interactive_loop w')"
proof -
  let ?w = "test_world [''  QUIT  '', ''more''] []"
  let ?w1 = "?w\<lparr>calls := 2, stdout := [prompt], stdin := [''more'']\<rparr>"
  let ?v = "test_world [''What is RAG?''] []"
  let ?v1 = "?v\<lparr>calls := 2, stdout := [prompt], stdin := []\<rparr>"
  have h1: "py_input prompt ?w = (Inr ''  QUIT  '', ?w1)"
    using py_input_line [of ?w "''  QUIT  ''" "[''more'']" prompt]
    by (simp add: no_fault_test_world)
  have h2: "no_fault 8 ?w1"
    by (simp add: no_fault_def)
  have q: "lower (strip ''  QUIT  '') \<in> set quit_words"
    by code_simp
  from quit_words_terminate [OF h1 h2] q
  have "interactive_loop ?w = Some (Inr (), ?w1\<lparr>calls := Suc (calls ?w1), stdout := stdout ?w1 @ [farewell @ newline]\<rparr>)"
    by blast
  then have a: "interactive_loop ?w = Some (Inr (), ?w\<lparr>calls := 3, stdout := [prompt, farewell @ newline], stdin := [''more'']\<rparr>)"
    by simp
  have k1: "py_input prompt ?v = (Inr ''What is RAG?'', ?v1)"
    using py_input_line [of ?v "''What is RAG?''" "[]" prompt]
    by (simp add: no_fault_test_world)
  have k2: "no_fault 8 ?v1"
    by (simp add: no_fault_def)
  have n: "lower (strip ''What is RAG?'') \<notin> set quit_words"
    by (rule quit_line_examples(4))
  from quit_words_terminate [OF k1 k2] n
  have b: "\<exists>w'. loop_body ?v = (Inr Continue, w') \<and> interactive_loop ?v = interactive_loop w'"
    by blast
  from h1 h2 q quit_line_examples(1-3) a k1 k2 n b show ?thesis
    by blast
qed

text \<open>
  C5. A line that is empty once stripped sends the loop back to waiting for input: the
  pass shows the prompt, reads the line and does nothing else, so the Query Runner is not
  called and neither a result nor a timing line is printed. Off a terminal the prompt is
  written to standard output and the pass makes two calls; on a terminal the prompt goes to
  standard error within the one call that reads the line.
\<close>

theorem blank_line_skipped:
  assumes "stdin w = line # rest" and "strip line = []" and "no_fault 2 w"
  shows "loop_body w = (Inr Continue,
           if tty w then w\<lparr>calls := calls w + 1, stderr := stderr w @ [prompt], stdin := rest\<rparr>
           else w\<lparr>calls := calls w + 2, stdout := stdout w @ [prompt], stdin := rest\<rparr>)
       \<and> interactive_loop w =
           interactive_loop
             (if tty w then w\<lparr>calls := calls w + 1, stderr := stderr w @ [prompt], stdin := rest\<rparr>
              else w\<lparr>calls := calls w + 2, stdout := stdout w @ [prompt], stdin := rest\<rparr>)"
proof -
  have e: "lower [] \<notin> set quit_words"
    by (simp add: lower_def quit_words_def)
  from no_fault_at [OF assms(3), of 0] have f: "faults w (calls w) = None"
    by simp
  have b: "loop_body w = (Inr Continue,
           if tty w then w\<lparr>calls := calls w + 1, stderr := stderr w @ [prompt], stdin := rest\<rparr>
           else w\<lparr>calls := calls w + 2, stdout := stdout w @ [prompt], stdin := rest\<rparr>)"
  proof (cases "tty w")
    case True
    then show ?thesis
      by (simp add: loop_body_def loop_try_def bind_def terminal_input_line [OF True f assms(1)]
          Let_def assms(2) e return_def)
  next
    case False
    then show ?thesis
      by (simp add: loop_body_def loop_try_def bind_def py_input_line [OF assms(3) assms(1) False]
          Let_def assms(2) e return_def)
  qed
  from b loop_continue [OF b] show ?thesis
    by simp
qed

theorem blank_line_skipped_witness:
  "stdin (test_world ['' '' @ [CHR 0x09] @ '' '', ''quit''] []) = ('' '' @ [CHR 0x09] @ '' '') # [''quit'']
   \<and> strip ('' '' @ [CHR 0x09] @ '' '') = []
   \<and> no_fault 2 (test_world ['' '' @ [CHR 0x09] @ '' '', ''quit''] [])
   \<and> loop_body (test_world ['' '' @ [CHR 0x09] @ '' '', ''quit''] []) =
       (Inr Continue, (test_world ['' '' @ [CHR 0x09] @ '' '', ''quit''] [])
           \<lparr>calls := 2, stdout := [prompt], stdin := [''quit'']\<rparr>)
   \<and> stdin (test_terminal [[], ''quit''] []) = [] # [''quit'']
   \<and> strip [] = []
   \<and> no_fault 2 (test_terminal [[], ''quit''] [])
   \<and> loop_body (test_terminal [[], ''quit''] []) =
       (Inr Continue, (test_terminal [[], ''quit''] [])
           \<lparr>calls := 1, stderr := [prompt], stdin := [''quit'']\<rparr>)"
proof -
  let ?l = "'' '' @ [CHR 0x09] @ '' ''"
  let ?w = "test_world [?l, ''quit''] []"
  let ?t = "test_terminal [[], ''quit''] []"
  have h1: "stdin ?w = ?l # [''quit'']" by simp
  have h2: "strip ?l = []" by code_simp
  have h3: "no_fault 2 ?w" by (rule no_fault_test_world)
  from blank_line_skipped [OF h1 h2 h3] have "loop_body ?w = (Inr Continue,
       if tty ?w then ?w\<lparr>calls := calls ?w + 1, stderr := stderr ?w @ [prompt], stdin := [''quit'']\<rparr>
       else ?w\<lparr>calls := calls ?w + 2, stdout := stdout ?w @ [prompt], stdin := [''quit'']\<rparr>)"
    by (rule conjunct1)
  then have a: "loop_body ?w = (Inr Continue, ?w\<lparr>calls := 2, stdout := [prompt], stdin := [''quit'']\<rparr>)"
    by simp
  have k1: "stdin ?t = [] # [''quit'']" by simp
  have k2: "strip [] = []" by (simp add: strip_def)
  have k3: "no_fault 2 ?t" by (simp add: no_fault_def)
  from blank_line_skipped [OF k1 k2 k3] have "loop_body ?t = (Inr Continue,
       if tty ?t then ?t\<lparr>calls := calls ?t + 1, stderr := stderr ?t @ [prompt], stdin := [''quit'']\<rparr>
       else ?t\<lparr>calls := calls ?t + 2, stdout := stdout ?t @ [prompt], stdin := [''quit'']\<rparr>)"
    by (rule conjunct1)
  then have b: "loop_body ?t = (Inr Continue, ?t\<lparr>calls := 1, stderr := [prompt], stdin := [''quit'']\<rparr>)"
    by simp
  from h1 h2 h3 a k1 k2 k3 b show ?thesis by blast
qed

text \<open>
  C6. An exception of class \<open>Exception\<close> raised while a query is processed is caught: a line
  break, the error marker, \<open>Error:\<close> and the message of the exception are printed, when that
  print does not raise in its turn, and the loop goes on with the next pass instead of
  terminating. The message of an exception is the text it carries.
\<close>

theorem processing_error_reported:
  assumes "py_input prompt w = (Inr line, w1)"
    and "lower (strip line) \<notin> set quit_words" and "strip line \<noteq> []"
    and "processing (strip line) w1 = (Inl e, w2)"
    and "is_Exception e"
    and "faults w2 (calls w2) = None"
  shows "loop_body w = (Inr Continue,
           w2\<lparr>calls := Suc (calls w2),
              stdout := stdout w2 @ [newline @ glyph_cross @ '' Error: '' @ str_exn e @ newline]\<rparr>)
       \<and> interactive_loop w =
           interactive_loop (w2\<lparr>calls := Suc (calls w2),
              stdout := stdout w2 @ [newline @ glyph_cross @ '' Error: '' @ str_exn e @ newline]\<rparr>)
       \<and> str_exn (OtherError m) = m \<and> str_exn (EOFError m) = m"
proof -
  have t: "loop_try w = (Inl e, w2)"
    by (simp add: loop_try_def bind_def assms(1-4) Let_def)
  note b = exception_handled [OF t assms(5) assms(6)]
  from b loop_continue [OF b] show ?thesis by simp
qed

theorem processing_error_reported_witness:
  "py_input prompt (test_world [''hello''] [(3, OtherError ''connection refused'')]) =
     (Inr ''hello'', (test_world [''hello''] [(3, OtherError ''connection refused'')])
        \<lparr>calls := 2, stdout := [prompt], stdin := []\<rparr>)
   \<and> lower (strip ''hello'') \<notin> set quit_words \<and> strip ''hello'' \<noteq> []
   \<and> processing (strip ''hello'') ((test_world [''hello''] [(3, OtherError ''connection refused'')])
        \<lparr>calls := 2, stdout := [prompt], stdin := []\<rparr>) =
     (Inl (OtherError ''connection refused''), (test_world [''hello''] [(3, OtherError ''connection refused'')])
        \<lparr>calls := 4, stdout := [prompt], stdin := []\<rparr>)
   \<and> is_Exception (OtherError ''connection refused'')
   \<and> loop_body (test_world [''hello''] [(3, OtherError ''connection refused'')]) =
     (Inr Continue, (test_world [''hello''] [(3, OtherError ''connection refused'')])
        \<lparr>calls := 5,
          stdout := [prompt, newline @ glyph_cross @ '' Error: connection refused'' @ newline],
          stdin := []\<rparr>)
   \<and> py_input prompt (test_world [''hello''] [(4, OtherError ''disk full'')]) =
     (Inr ''hello'', (test_world [''hello''] [(4, OtherError ''disk full'')])
        \<lparr>calls := 2, stdout := [prompt], stdin := []\<rparr>)
   \<and> processing (strip ''hello'') ((test_world [''hello''] [(4, OtherError ''disk full'')])
        \<lparr>calls := 2, stdout := [prompt], stdin := []\<rparr>) =
     (Inl (OtherError ''disk full''), (test_world [''hello''] [(4, OtherError ''disk full'')])
        \<lparr>calls := 5, stdout := [prompt, newline @ glyph_magnifier @ '' Query: hello'' @ newline],
          stdin := []\<rparr>)
   \<and> is_Exception (OtherError ''disk full'')
   \<and> loop_body (test_world [''hello''] [(4, OtherError ''disk full'')]) =
     (Inr Continue, (test_world [''hello''] [(4, OtherError ''disk full'')])
        \<lparr>calls := 6,
          stdout := [prompt, newline @ glyph_magnifier @ '' Query: hello'' @ newline,
                     newline @ glyph_cross @ '' Error: disk full'' @ newline],
          stdin := []\<rparr>)"
proof -
  let ?e = "OtherError ''connection refused''"
  let ?w = "test_world [''hello''] [(3, ?e)]"
  let ?w1 = "?w\<lparr>calls := 2, stdout := [prompt], stdin := []\<rparr>"
  let ?w2 = "?w\<lparr>calls := 4, stdout := [prompt], stdin := []\<rparr>"
  let ?d = "OtherError ''disk full''"
  let ?v = "test_world [''hello''] [(4, ?d)]"
  let ?v1 = "?v\<lparr>calls := 2, stdout := [prompt], stdin := []\<rparr>"
  let ?v2 = "?v\<lparr>calls := 5, stdout := [prompt, newline @ glyph_magnifier @ '' Query: hello'' @ newline],
          stdin := []\<rparr>"
  have s: "strip ''hello'' = ''hello''" by code_simp
  have nf: "no_fault 2 ?w" by (simp add: no_fault_def)
  have h1: "py_input prompt ?w = (Inr ''hello'', ?w1)"
    using py_input_line [OF nf, of "''hello''" "[]" prompt] by simp
  have h2: "lower (strip ''hello'') \<notin> set quit_words" by code_simp
  have h3: "strip ''hello'' \<noteq> []" by (simp add: s)
  have h4: "processing (strip ''hello'') ?w1 = (Inl ?e, ?w2)"
    by (simp add: s processing_def bind_def time_time_def outside_def execute_workflow_def
        seq_def print_def stdout_write_def Let_def)
  have h5: "is_Exception ?e" by simp
  have h6: "faults ?w2 (calls ?w2) = None" by simp
  from processing_error_reported [OF h1 h2 h3 h4 h5 h6]
  have "loop_body ?w = (Inr Continue,
      ?w2\<lparr>calls := Suc (calls ?w2),
        stdout := stdout ?w2 @ [newline @ glyph_cross @ '' Error: '' @ str_exn ?e @ newline]\<rparr>)"
    by (rule conjunct1)
  then have b: "loop_body ?w = (Inr Continue,
      ?w\<lparr>calls := 5, stdout := [prompt, newline @ glyph_cross @ '' Error: connection refused'' @ newline],
        stdin := []\<rparr>)"
    by simp
  have nf': "no_fault 2 ?v" by (simp add: no_fault_def)
  have k1: "py_input prompt ?v = (Inr ''hello'', ?v1)"
    using py_input_line [OF nf', of "''hello''" "[]" prompt] by simp
  have k4: "processing (strip ''hello'') ?v1 = (Inl ?d, ?v2)"
    by (simp add: s processing_def bind_def time_time_def outside_def execute_workflow_def
        seq_def print_def stdout_write_def Let_def)
  have k5: "is_Exception ?d" by simp
  have k6: "faults ?v2 (calls ?v2) = None" by simp
  from processing_error_reported [OF k1 h2 h3 k4 k5 k6]
  have "loop_body ?v = (Inr Continue,
      ?v2\<lparr>calls := Suc (calls ?v2),
        stdout := stdout ?v2 @ [newline @ glyph_cross @ '' Error: '' @ str_exn ?d @ newline]\<rparr>)"
    by (rule conjunct1)
  then have c: "loop_body ?v = (Inr Continue,
      ?v\<lparr>calls := 6,
        stdout := [prompt, newline @ glyph_magnifier @ '' Query: hello'' @ newline,
                   newline @ glyph_cross @ '' Error: disk full'' @ newline],
        stdin := []\<rparr>)"
    by simp
  from h1 h2 h3 h4 h5 b k1 k4 k5 c show ?thesis by blast
qed

text \<open>
  C8, as stated, fails: the input is exhausted, \<open>input\<close> raises \<open>EOFError\<close>, and the interrupt
  arrives while the handler of \<open>Exception\<close> prints its error message (the call number 2).
  No handler covers that print: the \<open>KeyboardInterrupt\<close> leaves the loop and ends the
  process with a traceback, and no farewell is printed.
\<close>

theorem interrupt_during_error_report_counterexample:
  "loop_try (test_world [] [(2, KeyboardInterrupt)]) =
     (Inl (EOFError ''EOF when reading a line''), (test_world [] [(2, KeyboardInterrupt)])\<lparr>calls := 2, stdout := [prompt]\<rparr>)
   \<and> faults (test_world [] [(2, KeyboardInterrupt)]) 2 = Some KeyboardInterrupt
   \<and> loop_body (test_world [] [(2, KeyboardInterrupt)]) =
     (Inl KeyboardInterrupt, (test_world [] [(2, KeyboardInterrupt)])\<lparr>calls := 3, stdout := [prompt]\<rparr>)
   \<and> interactive_loop (test_world [] [(2, KeyboardInterrupt)]) =
     Some (Inl KeyboardInterrupt, (test_world [] [(2, KeyboardInterrupt)])\<lparr>calls := 3, stdout := [prompt]\<rparr>)
   \<and> outcome_of (Inl KeyboardInterrupt) = Traceback KeyboardInterrupt"
proof -
  let ?w = "test_world [] [(2, KeyboardInterrupt)]"
  have nf: "no_fault 2 ?w" by (simp add: no_fault_def)
  have t: "loop_try ?w = (Inl (EOFError ''EOF when reading a line''), ?w\<lparr>calls := 2, stdout := [prompt]\<rparr>)"
    using eof_try [OF _ nf] by simp
  have b: "loop_body ?w = (Inl KeyboardInterrupt, ?w\<lparr>calls := 3, stdout := [prompt]\<rparr>)"
    by (simp add: loop_body_def t seq_def bind_def print_fault)
  from t b loop_escape [OF b] show ?thesis by simp
qed

text \<open>
  C8, amended. An interrupt that arrives inside the \<open>try\<close> block, while the loop waits for
  a line or processes a query, terminates the loop: the farewell is printed, when that
  print is not interrupted in its turn, and it is all that is printed after the
  interrupt.
\<close>

theorem interrupt_in_try_block_terminates:
  assumes "loop_try w = (Inl KeyboardInterrupt, w1)" and "faults w1 (calls w1) = None"
  shows "loop_body w = (Inr Break,
           w1\<lparr>calls := Suc (calls w1), stdout := stdout w1 @ [newline @ farewell @ newline]\<rparr>)
       \<and> interactive_loop w = Some (Inr (),
           w1\<lparr>calls := Suc (calls w1), stdout := stdout w1 @ [newline @ farewell @ newline]\<rparr>)"
proof -
  have b: "loop_body w = (Inr Break,
           w1\<lparr>calls := Suc (calls w1), stdout := stdout w1 @ [newline @ farewell @ newline]\<rparr>)"
    by (simp add: loop_body_def assms seq_print_ok return_def)
  from b loop_break [OF b] show ?thesis by simp
qed

theorem interrupt_in_try_block_terminates_witness:
  "loop_try (test_world [''hello''] [(4, KeyboardInterrupt)]) =
     (Inl KeyboardInterrupt, (test_world [''hello''] [(4, KeyboardInterrupt)])
        \<lparr>calls := 5, stdout := [prompt, newline @ glyph_magnifier @ '' Query: hello'' @ newline], stdin := []\<rparr>)
   \<and> interactive_loop (test_world [''hello''] [(4, KeyboardInterrupt)]) =
     Some (Inr (), (test_world [''hello''] [(4, KeyboardInterrupt)])
        \<lparr>calls := 6,
          stdout := [prompt, newline @ glyph_magnifier @ '' Query: hello'' @ newline,
                     newline @ farewell @ newline],
          stdin := []\<rparr>)"
proof -
  let ?w = "test_world [''hello''] [(4, KeyboardInterrupt)]"
  let ?w1 = "?w\<lparr>calls := 5, stdout := [prompt, newline @ glyph_magnifier @ '' Query: hello'' @ newline], stdin := []\<rparr>"
  have s: "strip ''hello'' = ''hello''" by code_simp
  have h2: "lower ''hello'' \<notin> set quit_words" by code_simp
  have nf: "no_fault 2 ?w" by (simp add: no_fault_def)
  have i: "py_input prompt ?w = (Inr ''hello'', ?w\<lparr>calls := 2, stdout := [prompt], stdin := []\<rparr>)"
    using py_input_line [OF nf, of "''hello''" "[]" prompt] by simp
  have h1: "loop_try ?w = (Inl KeyboardInterrupt, ?w1)"
    using h2 by (simp add: loop_try_def bind_def i s Let_def processing_def time_time_def outside_def
        execute_workflow_def seq_def print_def stdout_write_def)
  have h3: "faults ?w1 (calls ?w1) = None" by simp
  from interrupt_in_try_block_terminates [OF h1 h3]
  have "interactive_loop ?w = Some (Inr (),
      ?w1\<lparr>calls := Suc (calls ?w1), stdout := stdout ?w1 @ [newline @ farewell @ newline]\<rparr>)"
    by (rule conjunct2)
  then have "interactive_loop ?w = Some (Inr (), ?w\<lparr>calls := 6,
          stdout := [prompt, newline @ glyph_magnifier @ '' Query: hello'' @ newline,
                     newline @ farewell @ newline], stdin := []\<rparr>)"
    by simp
  with h1 show ?thesis by blast
qed

text \<open>
  C9. The end of the input does not terminate the Interactive Loop. Off a terminal, with
  the input exhausted, \<open>input\<close> raises \<open>EOFError\<close>, the handler of \<open>Exception\<close> prints the error
  marker and \<open>EOF when reading a line\<close>, and the loop goes on with the next pass. On a
  terminal, where the end of input is typed or the terminal has no more lines, the
  \<open>EOFError\<close> has no message, the handler prints the error marker and \<open>Error:\<close> alone, and the
  loop goes on with the next pass. When moreover no call ever raises, the loop runs
  forever. The loop is back waiting for input after such passes: after any number of them
  an interrupt during the next read terminates it with the farewell, and on a terminal a
  quit word typed after the end of input terminates it. A pass terminates the loop only
  after a quit word was read or a \<open>KeyboardInterrupt\<close> was raised in the \<open>try\<close> block, and an
  exception leaves the loop only when a call to the outside raised it during the pass,
  which the exhausted input is not.
\<close>

theorem end_of_input_keeps_looping:
  "(stdin w = [] \<and> \<not> tty w \<and> no_fault 3 w \<longrightarrow>
      loop_try w = (Inl (EOFError ''EOF when reading a line''),
        w\<lparr>calls := calls w + 2, stdout := stdout w @ [prompt]\<rparr>)
    \<and> loop_body w = (Inr Continue,
        w\<lparr>calls := calls w + 3,
          stdout := stdout w @
            [prompt, newline @ glyph_cross @ '' Error: EOF when reading a line'' @ newline]\<rparr>)
    \<and> interactive_loop w = interactive_loop
       (w\<lparr>calls := calls w + 3,
          stdout := stdout w @
            [prompt, newline @ glyph_cross @ '' Error: EOF when reading a line'' @ newline]\<rparr>))
   \<and> (tty t \<and> (faults t (calls t) = Some (EOFError []) \<or> faults t (calls t) = None \<and> stdin t = [])
        \<and> faults t (Suc (calls t)) = None \<longrightarrow>
      loop_try t = (Inl (EOFError []), t\<lparr>calls := Suc (calls t), stderr := stderr t @ [prompt]\<rparr>)
    \<and> loop_body t = (Inr Continue,
        t\<lparr>calls := calls t + 2, stderr := stderr t @ [prompt],
          stdout := stdout t @ [newline @ glyph_cross @ '' Error: '' @ newline]\<rparr>)
    \<and> interactive_loop t = interactive_loop
       (t\<lparr>calls := calls t + 2, stderr := stderr t @ [prompt],
          stdout := stdout t @ [newline @ glyph_cross @ '' Error: '' @ newline]\<rparr>))
   \<and> (drained d \<longrightarrow> interactive_loop d = None)
   \<and> (stdin p = [] \<and> \<not> tty p \<and> no_fault (3 * n + 1) p
        \<and> faults p (calls p + (3 * n + 1)) = Some KeyboardInterrupt
        \<and> faults p (calls p + (3 * n + 2)) = None \<longrightarrow>
      interactive_loop p = Some (Inr (),
        p\<lparr>calls := calls p + (3 * n + 3),
          stdout := stdout p
            @ concat (replicate n [prompt, newline @ glyph_cross @ '' Error: EOF when reading a line'' @ newline])
            @ [prompt, newline @ farewell @ newline]\<rparr>))
   \<and> (tty k \<and> faults k (calls k) = Some (EOFError [])
        \<and> faults k (calls k + 1) = None \<and> faults k (calls k + 2) = None
        \<and> faults k (calls k + 3) = None
        \<and> stdin k = line # rest \<and> lower (strip line) \<in> set quit_words \<longrightarrow>
      interactive_loop k = Some (Inr (),
        k\<lparr>calls := calls k + 4, stderr := stderr k @ [prompt, prompt],
          stdout := stdout k @ [newline @ glyph_cross @ '' Error: '' @ newline, farewell @ newline],
          stdin := rest\<rparr>))
   \<and> (loop_body v = (Inr Break, v') \<longrightarrow>
        (\<exists>line v1. py_input prompt v = (Inr line, v1) \<and> lower (strip line) \<in> set quit_words)
      \<or> (\<exists>v1. loop_try v = (Inl KeyboardInterrupt, v1)))
   \<and> (loop_body u = (Inl e, u') \<longrightarrow>
        (\<exists>n. calls u \<le> n \<and> n < calls u' \<and> faults u n = Some e))"
proof (intro conjI impI)
  assume a: "stdin w = [] \<and> \<not> tty w \<and> no_fault 3 w"
  then have two: "no_fault 2 w" by (simp add: no_fault_def)
  from a two show "loop_try w = (Inl (EOFError ''EOF when reading a line''),
        w\<lparr>calls := calls w + 2, stdout := stdout w @ [prompt]\<rparr>)"
    by (simp add: eof_try)
  from a have b: "loop_body w = (Inr Continue,
        w\<lparr>calls := calls w + 3,
          stdout := stdout w @
            [prompt, newline @ glyph_cross @ '' Error: EOF when reading a line'' @ newline]\<rparr>)"
    by (simp add: eof_step)
  then show "loop_body w = (Inr Continue,
        w\<lparr>calls := calls w + 3,
          stdout := stdout w @
            [prompt, newline @ glyph_cross @ '' Error: EOF when reading a line'' @ newline]\<rparr>)" .
  from loop_continue [OF b] show "interactive_loop w = interactive_loop
       (w\<lparr>calls := calls w + 3,
          stdout := stdout w @
            [prompt, newline @ glyph_cross @ '' Error: EOF when reading a line'' @ newline]\<rparr>)" .
next
  assume a: "tty t \<and> (faults t (calls t) = Some (EOFError []) \<or> faults t (calls t) = None \<and> stdin t = [])
        \<and> faults t (Suc (calls t)) = None"
  then have a1: "tty t"
    and a2: "faults t (calls t) = Some (EOFError []) \<or> faults t (calls t) = None \<and> stdin t = []"
    and a3: "faults t (Suc (calls t)) = None"
    by blast+
  show "loop_try t = (Inl (EOFError []), t\<lparr>calls := Suc (calls t), stderr := stderr t @ [prompt]\<rparr>)"
    by (rule terminal_eof_try [OF a1 a2])
  note b = terminal_eof_step [OF a1 a2 a3]
  then show "loop_body t = (Inr Continue,
        t\<lparr>calls := calls t + 2, stderr := stderr t @ [prompt],
          stdout := stdout t @ [newline @ glyph_cross @ '' Error: '' @ newline]\<rparr>)" .
  from loop_continue [OF b] show "interactive_loop t = interactive_loop
       (t\<lparr>calls := calls t + 2, stderr := stderr t @ [prompt],
          stdout := stdout t @ [newline @ glyph_cross @ '' Error: '' @ newline]\<rparr>)" .
next
  assume "drained d"
  then show "interactive_loop d = None" by (rule drained_forever)
next
  assume "stdin p = [] \<and> \<not> tty p \<and> no_fault (3 * n + 1) p
        \<and> faults p (calls p + (3 * n + 1)) = Some KeyboardInterrupt
        \<and> faults p (calls p + (3 * n + 2)) = None"
  then show "interactive_loop p = Some (Inr (),
        p\<lparr>calls := calls p + (3 * n + 3),
          stdout := stdout p
            @ concat (replicate n [prompt, newline @ glyph_cross @ '' Error: EOF when reading a line'' @ newline])
            @ [prompt, newline @ farewell @ newline]\<rparr>)"
    using interrupt_after_eof_passes [of p n] by blast
next
  assume "tty k \<and> faults k (calls k) = Some (EOFError [])
        \<and> faults k (calls k + 1) = None \<and> faults k (calls k + 2) = None
        \<and> faults k (calls k + 3) = None
        \<and> stdin k = line # rest \<and> lower (strip line) \<in> set quit_words"
  then show "interactive_loop k = Some (Inr (),
        k\<lparr>calls := calls k + 4, stderr := stderr k @ [prompt, prompt],
          stdout := stdout k @ [newline @ glyph_cross @ '' Error: '' @ newline, farewell @ newline],
          stdin := rest\<rparr>)"
    using quit_after_terminal_eof [of k line rest] by blast
next
  assume "loop_body v = (Inr Break, v')"
  then show "(\<exists>line v1. py_input prompt v = (Inr line, v1) \<and> lower (strip line) \<in> set quit_words)
      \<or> (\<exists>v1. loop_try v = (Inl KeyboardInterrupt, v1))"
    by (rule break_only_by_quit_or_interrupt)
next
  assume "loop_body u = (Inl e, u')"
  then show "\<exists>n. calls u \<le> n \<and> n < calls u' \<and> faults u n = Some e"
    by (rule escape_only_by_fault)
qed

theorem end_of_input_keeps_looping_witness:
  "(stdin (test_world [] []) = [] \<and> \<not> tty (test_world [] []) \<and> no_fault 3 (test_world [] []))
   \<and> loop_body (test_world [] []) = (Inr Continue,
        (test_world [] [])\<lparr>calls := 3,
          stdout := [prompt, newline @ glyph_cross @ '' Error: EOF when reading a line'' @ newline]\<rparr>)
   \<and> (tty (test_terminal [''quit''] [(0, EOFError [])])
        \<and> (faults (test_terminal [''quit''] [(0, EOFError [])]) (calls (test_terminal [''quit''] [(0, EOFError [])]))
              = Some (EOFError [])
            \<or> faults (test_terminal [''quit''] [(0, EOFError [])]) (calls (test_terminal [''quit''] [(0, EOFError [])]))
              = None \<and> stdin (test_terminal [''quit''] [(0, EOFError [])]) = [])
        \<and> faults (test_terminal [''quit''] [(0, EOFError [])])
             (Suc (calls (test_terminal [''quit''] [(0, EOFError [])]))) = None)
   \<and> loop_body (test_terminal [''quit''] [(0, EOFError [])]) = (Inr Continue,
        (test_terminal [''quit''] [(0, EOFError [])])\<lparr>calls := 2, stderr := [prompt],
          stdout := [newline @ glyph_cross @ '' Error: '' @ newline]\<rparr>)
   \<and> drained (test_world [] [])
   \<and> interactive_loop (test_world [] []) = None
   \<and> (stdin (test_world [] [(7, KeyboardInterrupt)]) = [] \<and> \<not> tty (test_world [] [(7, KeyboardInterrupt)])
        \<and> no_fault (3 * 2 + 1) (test_world [] [(7, KeyboardInterrupt)])
        \<and> faults (test_world [] [(7, KeyboardInterrupt)])
             (calls (test_world [] [(7, KeyboardInterrupt)]) + (3 * 2 + 1)) = Some KeyboardInterrupt
        \<and> faults (test_world [] [(7, KeyboardInterrupt)])
             (calls (test_world [] [(7, KeyboardInterrupt)]) + (3 * 2 + 2)) = None)
   \<and> interactive_loop (test_world [] [(7, KeyboardInterrupt)]) = Some (Inr (),
        (test_world [] [(7, KeyboardInterrupt)])\<lparr>calls := 9,
          stdout := [prompt, newline @ glyph_cross @ '' Error: EOF when reading a line'' @ newline,
                     prompt, newline @ glyph_cross @ '' Error: EOF when reading a line'' @ newline,
                     prompt, newline @ farewell @ newline]\<rparr>)
   \<and> (stdin (test_terminal [''quit''] [(0, EOFError [])]) = ''quit'' # []
        \<and> lower (strip ''quit'') \<in> set quit_words)
   \<and> interactive_loop (test_terminal [''quit''] [(0, EOFError [])]) = Some (Inr (),
        (test_terminal [''quit''] [(0, EOFError [])])\<lparr>calls := 4, stderr := [prompt, prompt],
          stdout := [newline @ glyph_cross @ '' Error: '' @ newline, farewell @ newline],
          stdin := []\<rparr>)
   \<and> loop_body (test_world [''q''] []) =
       (Inr Break, (test_world [''q''] [])\<lparr>calls := 3, stdout := [prompt, farewell @ newline], stdin := []\<rparr>)
   \<and> ((\<exists>line v1. py_input prompt (test_world [''q''] []) = (Inr line, v1) \<and> lower (strip line) \<in> set quit_words)
      \<or> (\<exists>v1. loop_try (test_world [''q''] []) = (Inl KeyboardInterrupt, v1)))
   \<and> loop_body (test_world [] [(2, OtherError ''Broken pipe'')]) =
       (Inl (OtherError ''Broken pipe''), (test_world [] [(2, OtherError ''Broken pipe'')])\<lparr>calls := 3, stdout := [prompt]\<rparr>)
   \<and> (\<exists>n. 0 \<le> n \<and> n < 3 \<and> map_of [(2::nat, OtherError ''Broken pipe'')] n = Some (OtherError ''Broken pipe''))"
proof -
  let ?w = "test_world [] []"
  let ?t = "test_terminal [''quit''] [(0, EOFError [])]"
  let ?p = "test_world [] [(7, KeyboardInterrupt)]"
  let ?v = "test_world [''q''] []"
  let ?v' = "?v\<lparr>calls := 3, stdout := [prompt, farewell @ newline], stdin := []\<rparr>"
  let ?e = "OtherError ''Broken pipe''"
  let ?u = "test_world [] [(2, ?e)]"
  let ?u' = "?u\<lparr>calls := 3, stdout := [prompt]\<rparr>"
  note inst = end_of_input_keeps_looping [of ?w ?t ?w ?p 2 ?t "''quit''" "[]" ?v ?v' ?u ?e ?u']
  have h1: "stdin ?w = [] \<and> \<not> tty ?w \<and> no_fault 3 ?w"
    by (simp add: no_fault_test_world)
  have h2: "tty ?t \<and> (faults ?t (calls ?t) = Some (EOFError []) \<or> faults ?t (calls ?t) = None \<and> stdin ?t = [])
        \<and> faults ?t (Suc (calls ?t)) = None"
    by simp
  have h3: "drained ?w"
    by (simp add: drained_def)
  have h4: "stdin ?p = [] \<and> \<not> tty ?p \<and> no_fault (3 * 2 + 1) ?p
        \<and> faults ?p (calls ?p + (3 * 2 + 1)) = Some KeyboardInterrupt
        \<and> faults ?p (calls ?p + (3 * 2 + 2)) = None"
    by (simp add: no_fault_def)
  have q: "lower (strip ''quit'') \<in> set quit_words"
    by (rule quit_line_examples(1))
  have h5: "tty ?t \<and> faults ?t (calls ?t) = Some (EOFError [])
        \<and> faults ?t (calls ?t + 1) = None \<and> faults ?t (calls ?t + 2) = None
        \<and> faults ?t (calls ?t + 3) = None
        \<and> stdin ?t = ''quit'' # [] \<and> lower (strip ''quit'') \<in> set quit_words"
    using q by simp
  have q1: "lower (strip ''q'') \<in> set quit_words" by code_simp
  have i: "py_input prompt ?v = (Inr ''q'', ?v\<lparr>calls := 2, stdout := [prompt], stdin := []\<rparr>)"
    using py_input_line [of ?v "''q''" "[]" prompt] by (simp add: no_fault_test_world)
  have h6: "loop_body ?v = (Inr Break, ?v')"
    using quit_pass [OF i q1] by simp
  have nf: "no_fault 2 ?u" by (simp add: no_fault_def)
  have t: "loop_try ?u = (Inl (EOFError ''EOF when reading a line''), ?u\<lparr>calls := 2, stdout := [prompt]\<rparr>)"
    using eof_try [OF _ nf] by simp
  have h7: "loop_body ?u = (Inl ?e, ?u')"
    by (simp add: loop_body_def t seq_def bind_def print_fault)
  from inst h1 have "loop_body ?w = (Inr Continue,
        ?w\<lparr>calls := calls ?w + 3,
          stdout := stdout ?w @
            [prompt, newline @ glyph_cross @ '' Error: EOF when reading a line'' @ newline]\<rparr>)"
    by blast
  then have c1: "loop_body ?w = (Inr Continue,
        ?w\<lparr>calls := 3,
          stdout := [prompt, newline @ glyph_cross @ '' Error: EOF when reading a line'' @ newline]\<rparr>)"
    by simp
  from inst h2 have "loop_body ?t = (Inr Continue,
        ?t\<lparr>calls := calls ?t + 2, stderr := stderr ?t @ [prompt],
          stdout := stdout ?t @ [newline @ glyph_cross @ '' Error: '' @ newline]\<rparr>)"
    by blast
  then have c2: "loop_body ?t = (Inr Continue,
        ?t\<lparr>calls := 2, stderr := [prompt], stdout := [newline @ glyph_cross @ '' Error: '' @ newline]\<rparr>)"
    by simp
  from inst h3 have c3: "interactive_loop ?w = None"
    by blast
  from inst h4 have "interactive_loop ?p = Some (Inr (),
        ?p\<lparr>calls := calls ?p + (3 * 2 + 3),
          stdout := stdout ?p
            @ concat (replicate 2 [prompt, newline @ glyph_cross @ '' Error: EOF when reading a line'' @ newline])
            @ [prompt, newline @ farewell @ newline]\<rparr>)"
    by blast
  then have c4: "interactive_loop ?p = Some (Inr (),
        ?p\<lparr>calls := 9,
          stdout := [prompt, newline @ glyph_cross @ '' Error: EOF when reading a line'' @ newline,
                     prompt, newline @ glyph_cross @ '' Error: EOF when reading a line'' @ newline,
                     prompt, newline @ farewell @ newline]\<rparr>)"
    by (simp add: numeral_2_eq_2)
  from inst h5 have "interactive_loop ?t = Some (Inr (),
        ?t\<lparr>calls := calls ?t + 4, stderr := stderr ?t @ [prompt, prompt],
          stdout := stdout ?t @ [newline @ glyph_cross @ '' Error: '' @ newline, farewell @ newline],
          stdin := []\<rparr>)"
    by blast
  then have c5: "interactive_loop ?t = Some (Inr (),
        ?t\<lparr>calls := 4, stderr := [prompt, prompt],
          stdout := [newline @ glyph_cross @ '' Error: '' @ newline, farewell @ newline],
          stdin := []\<rparr>)"
    by simp
  from inst h6 have c6: "(\<exists>line v1. py_input prompt ?v = (Inr line, v1) \<and> lower (strip line) \<in> set quit_words)
      \<or> (\<exists>v1. loop_try ?v = (Inl KeyboardInterrupt, v1))"
    by blast
  from inst h7 have "\<exists>n. calls ?u \<le> n \<and> n < calls ?u' \<and> faults ?u n = Some ?e"
    by blast
  then have c7: "\<exists>n. 0 \<le> n \<and> n < 3 \<and> map_of [(2::nat, ?e)] n = Some ?e"
    by simp
  have s5: "stdin ?t = ''quit'' # [] \<and> lower (strip ''quit'') \<in> set quit_words"
    using q by simp
  from h1 c1 h2 c2 h3 c3 h4 c4 s5 c5 h6 c6 h7 c7 show ?thesis
    by blast
qed

end
